theory Spec2Isabelle
  imports
    Main
    "HOL-Library.AList"
    "HOL-Library.Char_ord"
    "HOL-Library.List_Lexorder"
    "HOL-Library.Multiset"
    "HOL-Library.Sublist"
begin

section \<open>FOWD: processing of a CDIP station (src/fowd/cdip.py)\<close>

text \<open>
  The development embeds \<^verbatim>\<open>get_cdip_wave_records\<close> and \<^verbatim>\<open>process_cdip_station\<close> with its
  two nested functions \<^verbatim>\<open>handle_result\<close> and \<^verbatim>\<open>generate_results\<close>. Python integers are
  \<^typ>\<open>int\<close>, paths are \<^typ>\<open>string\<close>, a dict is an association list (insertion order, first
  binding wins), an exception is a value of \<open>exn\<close>, and the effects the function has on the
  outside (log lines, progress bar, pool, writer) are recorded as a chronological trace.
\<close>

subsection \<open>Data\<close>

text \<open>
  A record chunk is a dict from field names to arrays of equal length. The merge only looks
  at the length of the \<^verbatim>\<open>'wave_id_local'\<close> array and replaces it by \<^verbatim>\<open>np.arange\<close>, an array of
  integers; the other arrays hold values of any kind.
\<close>

datatype 'v column = Ids "int list" | Vals "'v list"

fun len :: "'v column \<Rightarrow> int" where
  "len (Ids xs) = int (length xs)"
| "len (Vals xs) = int (length xs)"

type_synonym 'v record_chunk = "(string \<times> 'v column) list"

abbreviation wave_id_local :: string where
  "wave_id_local \<equiv> ''wave_id_local''"

text \<open>\<^verbatim>\<open>np.arange(a, b)\<close> on integers: \<open>a, a + 1, ..., b - 1\<close>, empty when \<open>b \<le> a\<close>.\<close>

definition arange :: "int \<Rightarrow> int \<Rightarrow> int list" where
  "arange a b = [a..b - 1]"

text \<open>
  The state file holds a dict; \<^verbatim>\<open>handle_result\<close> reads its entry \<^verbatim>\<open>'num_flags_fired'\<close>, a dict
  from flag name to count. The other entries of the state are the record's extension.
\<close>

record state_summary =
  num_flags_fired :: "(string \<times> int) list"

text \<open>
  Exceptions. \<open>Raised e\<close> is an exception \<open>e\<close> that comes out of a collaborator outside this
  file (reading the input, computing the wave records).
\<close>

datatype 'e exn = AssertionError | RuntimeError | KeyError string | IndexError | Raised 'e

datatype 'e load_error = InvalidCDIPFile | Load_failure 'e

text \<open>
  What lies outside \<^verbatim>\<open>cdip.py\<close> is a parameter of the model: the machine and the file system
  (\<^verbatim>\<open>multiprocessing.cpu_count\<close>, \<^verbatim>\<open>os.path.normpath\<close>, \<^verbatim>\<open>os.path.isdir\<close>, \<^verbatim>\<open>glob.glob\<close>), the
  parsing of an input file (\<^verbatim>\<open>get_cdip_data\<close>, whose numeric content is not modelled: only
  whether it returns, raises \<^verbatim>\<open>InvalidCDIPFile\<close> or raises something else), the computation
  (\<^verbatim>\<open>compute_wave_records\<close> of \<^verbatim>\<open>processing.py\<close>: \<open>None\<close> when it returns, \<open>Some e\<close> when it
  raises; the extraction of arrays and metadata just before the call is counted with it),
  and the two readers of \<^verbatim>\<open>processing.py\<close>. A reader returns the content a unit has
  written: each unit writes files of its own, once, before its result is handled.
\<close>

record ('e, 'v) env =
  cpu_count :: int
  normpath :: "string \<Rightarrow> string"
  isdir :: "string \<Rightarrow> bool"
  glob :: "string \<Rightarrow> string list"
  get_cdip_data :: "string \<Rightarrow> 'e load_error option"
  compute_wave_records :: "string \<Rightarrow> string \<Rightarrow> string \<Rightarrow> string \<Rightarrow> 'e option"
  read_pickle_outfile_chunks :: "string \<Rightarrow> 'v record_chunk list"
  read_pickle_statefile :: "string \<Rightarrow> state_summary"

subsection \<open>Paths\<close>

text \<open>\<^verbatim>\<open>os.path.basename\<close> and \<^verbatim>\<open>os.path.join\<close> (two arguments) of \<^verbatim>\<open>posixpath\<close>.\<close>

definition basename :: "string \<Rightarrow> string" where
  "basename p = rev (takeWhile (\<lambda>c. c \<noteq> CHR ''/'') (rev p))"

definition join :: "string \<Rightarrow> string \<Rightarrow> string" where
  "join a b =
     (if b \<noteq> [] \<and> hd b = CHR ''/'' then b
      else if a = [] \<or> last a = CHR ''/'' then a @ b
      else a @ ''/'' @ b)"

subsection \<open>The merge: \<^verbatim>\<open>generate_results\<close>\<close>

text \<open>
  The generator is modelled by what a consumer that exhausts it sees: the chunks yielded in
  order, the final value of \<^verbatim>\<open>current_wave_id\<close>, and the exception that ended the iteration,
  if any (\<^verbatim>\<open>record_chunk['wave_id_local']\<close> raises \<^verbatim>\<open>KeyError\<close> on a non-empty dict without
  that key). \<open>merge_chunks\<close> is the inner loop over the chunks of one file, \<open>merge_files\<close> the
  outer loop over \<^verbatim>\<open>result_files\<close>. The progress bar of the generator is display only and is
  left out.
\<close>

fun merge_chunks ::
  "'v record_chunk list \<Rightarrow> int \<Rightarrow> 'v record_chunk list \<times> int \<times> 'e exn option" where
  "merge_chunks [] current_wave_id = ([], current_wave_id, None)"
| "merge_chunks (record_chunk # rest) current_wave_id =
     (if record_chunk = [] then merge_chunks rest current_wave_id
      else case map_of record_chunk wave_id_local of
        None \<Rightarrow> ([], current_wave_id, Some (KeyError wave_id_local))
      | Some col \<Rightarrow>
          (let chunk_size = len col;
               renumbered = AList.update wave_id_local
                 (Ids (arange current_wave_id (current_wave_id + chunk_size))) record_chunk
           in case merge_chunks rest (current_wave_id + chunk_size) of
                (ys, final, err) \<Rightarrow> (renumbered # ys, final, err)))"

fun merge_files ::
  "('e, 'v) env \<Rightarrow> string option list \<Rightarrow> int \<Rightarrow> 'v record_chunk list \<times> int \<times> 'e exn option"
  where
  "merge_files env [] current_wave_id = ([], current_wave_id, None)"
| "merge_files env (None # rest) current_wave_id = merge_files env rest current_wave_id"
| "merge_files env (Some result_file # rest) current_wave_id =
     (case merge_chunks (read_pickle_outfile_chunks env result_file) current_wave_id of
        (ys, cur, Some e) \<Rightarrow> (ys, cur, Some e)
      | (ys, cur, None) \<Rightarrow>
          (case merge_files env rest cur of (zs, final, err) \<Rightarrow> (ys @ zs, final, err)))"

definition generate_results ::
  "('e, 'v) env \<Rightarrow> string option list \<Rightarrow> 'v record_chunk list \<times> int \<times> 'e exn option" where
  "generate_results env result_files = merge_files env result_files 0"

text \<open>Observations used to state the properties of the merge.\<close>

definition ids_of :: "'v record_chunk \<Rightarrow> int list" where
  "ids_of c = (case map_of c wave_id_local of Some (Ids xs) \<Rightarrow> xs | _ \<Rightarrow> [])"

definition size_of :: "'v record_chunk \<Rightarrow> int" where
  "size_of c = (case map_of c wave_id_local of Some col \<Rightarrow> len col | None \<Rightarrow> 0)"

definition well_formed :: "'v record_chunk \<Rightarrow> bool" where
  "well_formed c = (c = [] \<or> map_of c wave_id_local \<noteq> None)"

text \<open>The non-empty chunks of the units that were not skipped, in canonical order.\<close>

definition stored_chunks :: "('e, 'v) env \<Rightarrow> string option list \<Rightarrow> 'v record_chunk list" where
  "stored_chunks env result_files =
     filter (\<lambda>c. c \<noteq> [])
       (concat (map (read_pickle_outfile_chunks env) (List.map_filter id result_files)))"

subsection \<open>Effects and closure state\<close>

text \<open>
  The effects of \<^verbatim>\<open>process_cdip_station\<close> on the outside, in the order in which the main
  process performs them: log records (with their arguments), progress bar updates, the
  creation of the pool, the submission or call of \<^verbatim>\<open>do_work\<close> on a file, the reads of the
  two pickle files, the termination of the workers, the cursor reset on \<^verbatim>\<open>stderr\<close> (with the
  number of newlines requested) and the call of \<^verbatim>\<open>write_records\<close> (with the chunks it draws
  from the generator, the output file and the station name).
\<close>

datatype 'v event =
    Log_starting string int
  | Pool_created int
  | Submitted string
  | Called string
  | Pbar_update
  | Log_skipped string
  | Read_outfile string
  | Read_statefile string
  | Log_finished string int int
  | Log_found_waves int
  | Log_qc_header
  | Log_qc_flag string int
  | Terminated
  | Cursor_reset int
  | Log_done
  | Log_no_output
  | Log_writing string
  | Write_records "'v record_chunk list" string string

text \<open>
  The variables of \<^verbatim>\<open>process_cdip_station\<close> that its nested functions update
  (\<^verbatim>\<open>result_files\<close> in place, \<^verbatim>\<open>num_waves_total\<close> as \<^verbatim>\<open>nonlocal\<close>), with the trace so far.
\<close>

record 'v station_state =
  result_files :: "string option list"
  num_waves_total :: int
  trace :: "'v event list"

definition emit :: "'v event list \<Rightarrow> 'v station_state \<Rightarrow> 'v station_state" where
  "emit evs s = s\<lparr>trace := trace s @ evs\<rparr>"

subsection \<open>One unit: \<^verbatim>\<open>get_cdip_wave_records\<close>\<close>

definition get_cdip_wave_records ::
  "('e, 'v) env \<Rightarrow> string \<Rightarrow> string \<Rightarrow> string \<Rightarrow> 'e exn + (string option \<times> string option)"
  where
  "get_cdip_wave_records env filepath out_folder qc_outfile =
     (let filename = basename filepath;
          outfile = join out_folder (filename @ ''.waves.pkl'');
          statefile = join out_folder (filename @ ''.state.pkl'')
      in case get_cdip_data env filepath of
           Some InvalidCDIPFile \<Rightarrow> Inr (None, None)
         | Some (Load_failure e) \<Rightarrow> Inl (Raised e)
         | None \<Rightarrow>
             (case compute_wave_records env filepath outfile statefile qc_outfile of
                Some e \<Rightarrow> Inl (Raised e)
              | None \<Rightarrow> Inr (Some outfile, Some statefile)))"

subsection \<open>The completion handler: \<^verbatim>\<open>handle_result\<close>\<close>

text \<open>The counting loop of \<^verbatim>\<open>handle_result\<close> over the chunks of one file.\<close>

fun count_waves :: "'v record_chunk list \<Rightarrow> int \<Rightarrow> 'e exn + int" where
  "count_waves [] num_waves = Inr num_waves"
| "count_waves (record_chunk # rest) num_waves =
     (if record_chunk = [] then count_waves rest num_waves
      else case map_of record_chunk wave_id_local of
        None \<Rightarrow> Inl (KeyError wave_id_local)
      | Some col \<Rightarrow> count_waves rest (num_waves + len col))"

text \<open>
  \<^verbatim>\<open>handle_result(i, result, pbar)\<close>. The index is a position handed out by \<^verbatim>\<open>enumerate\<close>, a
  natural number; \<^verbatim>\<open>station_files[i]\<close> and \<^verbatim>\<open>result_files[i] = ...\<close> raise \<^verbatim>\<open>IndexError\<close> out
  of range. The result is the exception raised, if any, and the state at that point.
\<close>

definition handle_result ::
  "('e, 'v) env \<Rightarrow> string list \<Rightarrow> nat \<Rightarrow> string option \<times> string option \<Rightarrow>
   'v station_state \<Rightarrow> 'e exn option \<times> 'v station_state" where
  "handle_result env station_files i result s0 =
     (let s1 = emit [Pbar_update] s0 in
      case result of (result_file, state_file) \<Rightarrow>
        if length station_files \<le> i then (Some IndexError, s1)
        else
          (let filename = station_files ! i in
           case (result_file, state_file) of
             (Some rf, Some sf) \<Rightarrow>
               (let s2 = emit [Read_outfile rf] s1 in
                case count_waves (read_pickle_outfile_chunks env rf) 0 of
                  Inl e \<Rightarrow> (Some e, s2)
                | Inr num_waves \<Rightarrow>
                    (let s3 = s2\<lparr>num_waves_total := num_waves_total s2 + num_waves\<rparr> in
                     if length (result_files s3) \<le> i then (Some IndexError, s3)
                     else
                       (let s4 = s3\<lparr>result_files := (result_files s3)[i := Some rf]\<rparr>;
                            qc_flags_fired = num_flags_fired (read_pickle_statefile env sf);
                            num_done = int (length (filter (\<lambda>res. res \<noteq> None) (result_files s4)))
                        in (None,
                            emit ([Read_statefile sf,
                                   Log_finished filename num_done (int (length station_files)),
                                   Log_found_waves num_waves,
                                   Log_qc_header]
                                  @ map (\<lambda>(key, val). Log_qc_flag key val) qc_flags_fired) s4))))
           | _ \<Rightarrow> (None, emit [Log_skipped filename] s1)))"

subsection \<open>Dispatch\<close>

text \<open>
  The sequential shortcut: \<^verbatim>\<open>for i, result in enumerate(map(do_work, station_files))\<close>. The
  \<^verbatim>\<open>map\<close> is lazy, so each file is computed just before its result is handled.
\<close>

fun sequential ::
  "('e, 'v) env \<Rightarrow> string list \<Rightarrow> string \<Rightarrow> string \<Rightarrow> (nat \<times> string) list \<Rightarrow>
   'v station_state \<Rightarrow> 'e exn option \<times> 'v station_state" where
  "sequential env station_files out_folder qc_outfile [] s = (None, s)"
| "sequential env station_files out_folder qc_outfile ((i, station_file) # rest) s =
     (let s1 = emit [Called station_file] s in
      case get_cdip_wave_records env station_file out_folder qc_outfile of
        Inl e \<Rightarrow> (Some e, s1)
      | Inr result \<Rightarrow>
          (case handle_result env station_files i result s1 of
             (Some e, s2) \<Rightarrow> (Some e, s2)
           | (None, s2) \<Rightarrow> sequential env station_files out_folder qc_outfile rest s2))"

text \<open>
  The pool: every file is submitted, then \<^verbatim>\<open>as_completed\<close> hands the futures over in the
  order in which they complete, each once. \<^verbatim>\<open>future.result()\<close> returns what the worker
  returned or raises what it raised. The order of completion is not decided by the program:
  it is given by \<open>completed_at\<close>, the time at which the future of unit \<open>i\<close> completes (equal
  times are taken in the order of submission), so every choice of \<open>completed_at\<close> is one
  possible schedule and every permutation of the units is the schedule of some choice.
\<close>

fun as_completed ::
  "('e, 'v) env \<Rightarrow> string list \<Rightarrow> string \<Rightarrow> string \<Rightarrow> nat list \<Rightarrow>
   'v station_state \<Rightarrow> 'e exn option \<times> 'v station_state" where
  "as_completed env station_files out_folder qc_outfile [] s = (None, s)"
| "as_completed env station_files out_folder qc_outfile (i # rest) s =
     (case get_cdip_wave_records env (station_files ! i) out_folder qc_outfile of
        Inl e \<Rightarrow> (Some e, s)
      | Inr result \<Rightarrow>
          (case handle_result env station_files i result s of
             (Some e, s1) \<Rightarrow> (Some e, s1)
           | (None, s1) \<Rightarrow> as_completed env station_files out_folder qc_outfile rest s1))"

definition completion_order :: "(nat \<Rightarrow> nat) \<Rightarrow> nat \<Rightarrow> nat list" where
  "completion_order completed_at n = sort_key completed_at [0..<n]"

definition parallel ::
  "('e, 'v) env \<Rightarrow> (nat \<Rightarrow> nat) \<Rightarrow> string list \<Rightarrow> string \<Rightarrow> string \<Rightarrow> int \<Rightarrow>
   'v station_state \<Rightarrow> 'e exn option \<times> 'v station_state" where
  "parallel env completed_at station_files out_folder qc_outfile nproc s =
     (let s1 = emit (Pool_created nproc # map Submitted station_files) s in
      case as_completed env station_files out_folder qc_outfile
             (completion_order completed_at (length station_files)) s1 of
        (Some e, s2) \<Rightarrow> (Some e, emit [Terminated] s2)
      | (None, s2) \<Rightarrow> (None, s2))"

text \<open>The body of the \<^verbatim>\<open>with tqdm.tqdm(...)\<close> block: pool or sequential shortcut.\<close>

definition dispatch ::
  "('e, 'v) env \<Rightarrow> (nat \<Rightarrow> nat) \<Rightarrow> string list \<Rightarrow> string \<Rightarrow> string \<Rightarrow> int \<Rightarrow>
   'v station_state \<Rightarrow> 'e exn option \<times> 'v station_state" where
  "dispatch env completed_at station_files out_folder qc_outfile nproc s =
     (if nproc > 1 then parallel env completed_at station_files out_folder qc_outfile nproc s
      else sequential env station_files out_folder qc_outfile (enumerate 0 station_files) s)"

subsection \<open>\<^verbatim>\<open>process_cdip_station\<close>\<close>

text \<open>Python's truth value of an entry of \<^verbatim>\<open>result_files\<close>: \<^verbatim>\<open>None\<close> and \<^verbatim>\<open>''\<close> are false.\<close>

definition truthy :: "string option \<Rightarrow> bool" where
  "truthy r = (case r of None \<Rightarrow> False | Some p \<Rightarrow> p \<noteq> [])"

definition initial_state :: "string \<Rightarrow> nat \<Rightarrow> 'v station_state" where
  "initial_state station_id n =
     \<lparr>result_files = replicate n None, num_waves_total = 0,
      trace = [Log_starting station_id (int n)]\<rparr>"

text \<open>
  The result is the exception that leaves the function (\<open>None\<close> when it returns) and the
  trace of its effects. \<^verbatim>\<open>write_records\<close> is taken to draw every chunk of the generator; an
  exception raised by the generator comes out of the call.
\<close>

definition process_cdip_station ::
  "('e, 'v) env \<Rightarrow> (nat \<Rightarrow> nat) \<Rightarrow> string \<Rightarrow> string \<Rightarrow> int option \<Rightarrow>
   'e exn option \<times> 'v event list" where
  "process_cdip_station env completed_at station_folder0 out_folder nproc0 =
     (let station_folder = normpath env station_folder0 in
      if \<not> isdir env station_folder then (Some AssertionError, [])
      else
        (let station_id = basename station_folder;
             glob_pattern = join station_folder (station_id @ ''_d??.nc'');
             station_files = sort (glob env glob_pattern);
             qc_outfile = join out_folder (''fowd_cdip_'' @ station_id @ ''.qc.json'');
             num_inputs = int (length station_files)
         in if num_inputs = 0 then (Some RuntimeError, [])
            else
              (let nproc1 = (case nproc0 of None \<Rightarrow> cpu_count env | Some n \<Rightarrow> n);
                   nproc = min nproc1 num_inputs
               in case dispatch env completed_at station_files out_folder qc_outfile nproc
                         (initial_state station_id (length station_files)) of
                    (outcome, s1) \<Rightarrow>
                      (let s2 = emit [Cursor_reset (nproc + 2)] s1 in
                       case outcome of
                         Some e \<Rightarrow> (Some e, trace s2)
                       | None \<Rightarrow>
                           (let s3 = emit [Log_done] s2 in
                            if \<not> list_ex truthy (result_files s3)
                            then (None, trace (emit [Log_no_output] s3))
                            else
                              (let out_file = join out_folder (''fowd_cdip_'' @ station_id @ ''.nc'');
                                   s4 = emit [Log_writing out_file] s3;
                                   station_name = ''CDIP_'' @ station_id
                               in case generate_results env (result_files s4) of
                                    (chunks, final, err) \<Rightarrow>
                                      (err, trace (emit [Write_records chunks out_file station_name]
                                                     s4))))))))"

subsection \<open>Observations on a run\<close>

text \<open>
  The values \<^verbatim>\<open>process_cdip_station\<close> computes before it dispatches: the sorted list of
  station files, the path of the quality control file, the requested worker count.
\<close>

definition discovered :: "('e, 'v) env \<Rightarrow> string \<Rightarrow> string list" where
  "discovered env station_folder0 =
     (let station_folder = normpath env station_folder0;
          station_id = basename station_folder
      in sort (glob env (join station_folder (station_id @ ''_d??.nc''))))"

definition qc_path :: "('e, 'v) env \<Rightarrow> string \<Rightarrow> string \<Rightarrow> string" where
  "qc_path env station_folder0 out_folder =
     join out_folder (''fowd_cdip_'' @ basename (normpath env station_folder0) @ ''.qc.json'')"

definition requested :: "('e, 'v) env \<Rightarrow> int option \<Rightarrow> int" where
  "requested env nproc0 = (case nproc0 of None \<Rightarrow> cpu_count env | Some n \<Rightarrow> n)"

text \<open>
  What one unit contributes when its result is handled: the exception that ends the batch
  (raised by the computation, or by the handler on a malformed chunk), the entry it leaves
  in \<^verbatim>\<open>result_files\<close>, the number of waves it adds, and the flag lines it logs.
\<close>

definition unit_error :: "('e, 'v) env \<Rightarrow> string \<Rightarrow> string \<Rightarrow> string \<Rightarrow> 'e exn option" where
  "unit_error env out_folder qc_outfile f =
     (case get_cdip_wave_records env f out_folder qc_outfile of
        Inl e \<Rightarrow> Some e
      | Inr (Some rf, Some sf) \<Rightarrow>
          (case count_waves (read_pickle_outfile_chunks env rf) 0 of
             Inl e \<Rightarrow> Some e
           | Inr n \<Rightarrow> None)
      | Inr _ \<Rightarrow> None)"

definition unit_slot :: "('e, 'v) env \<Rightarrow> string \<Rightarrow> string \<Rightarrow> string \<Rightarrow> string option" where
  "unit_slot env out_folder qc_outfile f =
     (case get_cdip_wave_records env f out_folder qc_outfile of
        Inr (Some rf, Some sf) \<Rightarrow> Some rf
      | _ \<Rightarrow> None)"

definition unit_waves :: "('e, 'v) env \<Rightarrow> string \<Rightarrow> string \<Rightarrow> string \<Rightarrow> int" where
  "unit_waves env out_folder qc_outfile f =
     (case get_cdip_wave_records env f out_folder qc_outfile of
        Inr (Some rf, Some sf) \<Rightarrow>
          (case count_waves (read_pickle_outfile_chunks env rf) 0 :: 'e exn + int of
             Inl e \<Rightarrow> 0
           | Inr n \<Rightarrow> n)
      | _ \<Rightarrow> 0)"

definition unit_flags ::
  "('e, 'v) env \<Rightarrow> string \<Rightarrow> string \<Rightarrow> string \<Rightarrow> (string \<times> int) list" where
  "unit_flags env out_folder qc_outfile f =
     (case get_cdip_wave_records env f out_folder qc_outfile of
        Inr (Some rf, Some sf) \<Rightarrow>
          (case count_waves (read_pickle_outfile_chunks env rf) 0 :: 'e exn + int of
             Inl e \<Rightarrow> []
           | Inr n \<Rightarrow> num_flags_fired (read_pickle_statefile env sf))
      | _ \<Rightarrow> [])"

text \<open>Projections of a trace.\<close>

fun is_write :: "'v event \<Rightarrow> bool" where
  "is_write (Write_records chunks out_file station_name) = True"
| "is_write ev = False"

fun is_pool :: "'v event \<Rightarrow> bool" where
  "is_pool (Pool_created n) = True"
| "is_pool (Submitted f) = True"
| "is_pool Terminated = True"
| "is_pool ev = False"

fun is_step :: "'v event \<Rightarrow> bool" where
  "is_step (Called f) = True"
| "is_step Pbar_update = True"
| "is_step ev = False"

text \<open>The flag counts a trace reports, in the order in which they are logged.\<close>

fun flag_of :: "'v event \<Rightarrow> (string \<times> int) list" where
  "flag_of (Log_qc_flag key val) = [(key, val)]"
| "flag_of ev = []"

definition logged_flags :: "'v event list \<Rightarrow> (string \<times> int) list" where
  "logged_flags tr = concat (map flag_of tr)"

text \<open>The events that follow the cursor reset.\<close>

fun tail_event :: "'v event \<Rightarrow> bool" where
  "tail_event Log_done = True"
| "tail_event Log_no_output = True"
| "tail_event (Log_writing out_file) = True"
| "tail_event (Write_records chunks out_file station_name) = True"
| "tail_event ev = False"

text \<open>The events \<^verbatim>\<open>handle_result\<close> can produce, and the first exception of a sequence of outcomes.\<close>

fun handler_event :: "'v event \<Rightarrow> bool" where
  "handler_event Pbar_update = True"
| "handler_event (Log_skipped f) = True"
| "handler_event (Read_outfile p) = True"
| "handler_event (Read_statefile p) = True"
| "handler_event (Log_finished f num_done num_inputs) = True"
| "handler_event (Log_found_waves n) = True"
| "handler_event Log_qc_header = True"
| "handler_event (Log_qc_flag key val) = True"
| "handler_event ev = False"

fun first_error :: "'a option list \<Rightarrow> 'a option" where
  "first_error [] = None"
| "first_error (None # es) = first_error es"
| "first_error (Some e # es) = Some e"

text \<open>
  A projection \<open>g\<close> of the trace is quiet when it drops the reads and the log lines of
  \<^verbatim>\<open>handle_result\<close> other than the flag lines; \<open>unit_proj\<close> is what such a projection keeps
  of the handling of one unit that completes or is skipped.
\<close>

definition quiet :: "('v event \<Rightarrow> 'a list) \<Rightarrow> bool" where
  "quiet g = ((\<forall>f. g (Log_skipped f) = []) \<and> (\<forall>p. g (Read_outfile p) = [])
     \<and> (\<forall>p. g (Read_statefile p) = []) \<and> (\<forall>f a b. g (Log_finished f a b) = [])
     \<and> (\<forall>n. g (Log_found_waves n) = []) \<and> g Log_qc_header = [])"

definition unit_proj ::
  "('v event \<Rightarrow> 'a list) \<Rightarrow> ('e, 'v) env \<Rightarrow> string \<Rightarrow> string \<Rightarrow> string \<Rightarrow> 'a list" where
  "unit_proj g env out qc f =
     g Pbar_update @ concat (map (\<lambda>(key, val). g (Log_qc_flag key val)) (unit_flags env out qc f))"

text \<open>
  The arithmetic sum, over the units, of the count a unit's state summary gives for a flag
  (a unit that is skipped has no state summary and counts for nothing).
\<close>

definition flag_total ::
  "('e, 'v) env \<Rightarrow> string \<Rightarrow> string \<Rightarrow> string list \<Rightarrow> string \<Rightarrow> int" where
  "flag_total env out qc files key =
     sum_list (map (\<lambda>f. case map_of (unit_flags env out qc f) key of
                           Some n \<Rightarrow> n | None \<Rightarrow> 0) files)"

subsection \<open>A station of three deployments\<close>

text \<open>
  Three input files, found out of order by \<^verbatim>\<open>glob\<close>. The first produces chunks of 2, 0 (an
  empty dict) and 3 records, the second has no displacement data and is skipped, the third
  produces one chunk of one record.
\<close>

definition chunk_of :: "int list \<Rightarrow> int record_chunk" where
  "chunk_of local_ids =
     [(''wave_height'', Vals (map (\<lambda>k. 10 * k) local_ids)), (wave_id_local, Ids local_ids)]"

definition scenario_env :: "(string, int) env" where
  "scenario_env =
     \<lparr>cpu_count = 4,
      normpath = (\<lambda>p. p),
      isdir = (\<lambda>p. p = ''data/100''),
      glob = (\<lambda>p. if p = ''data/100/100_d??.nc''
                    then [''data/100/100_d03.nc'', ''data/100/100_d01.nc'', ''data/100/100_d02.nc'']
                    else []),
      get_cdip_data = (\<lambda>p. if p = ''data/100/100_d02.nc'' then Some InvalidCDIPFile else None),
      compute_wave_records = (\<lambda>p outfile statefile qc. None),
      read_pickle_outfile_chunks =
        (\<lambda>p. if p = ''out/100_d01.nc.waves.pkl'' then [chunk_of [0, 1], [], chunk_of [0, 1, 2]]
              else if p = ''out/100_d03.nc.waves.pkl'' then [chunk_of [0]]
              else []),
      read_pickle_statefile =
        (\<lambda>p. if p = ''out/100_d01.nc.state.pkl'' then \<lparr>num_flags_fired = [(''a'', 1), (''b'', 2)]\<rparr>
              else \<lparr>num_flags_fired = [(''a'', 1)]\<rparr>)\<rparr>"

definition scenario_handles :: "string option list" where
  "scenario_handles = [Some ''out/100_d01.nc.waves.pkl'', None, Some ''out/100_d03.nc.waves.pkl'']"

definition scenario_merged :: "int record_chunk list" where
  "scenario_merged =
     [[(''wave_height'', Vals [0, 10]), (wave_id_local, Ids [0, 1])],
      [(''wave_height'', Vals [0, 10, 20]), (wave_id_local, Ids [2, 3, 4])],
      [(''wave_height'', Vals [0]), (wave_id_local, Ids [5])]]"

definition scenario_files :: "string list" where
  "scenario_files = [''data/100/100_d01.nc'', ''data/100/100_d02.nc'', ''data/100/100_d03.nc'']"

definition scenario_qc :: string where
  "scenario_qc = ''out/fowd_cdip_100.qc.json''"

text \<open>The same station when the computation of the second deployment raises.\<close>

definition failing_env :: "(string, int) env" where
  "failing_env =
     scenario_env\<lparr>get_cdip_data :=
       (\<lambda>p. if p = ''data/100/100_d02.nc'' then Some (Load_failure ''boom'') else None)\<rparr>"

text \<open>The same station when every deployment lacks displacement data.\<close>

definition skipping_env :: "(string, int) env" where
  "skipping_env = scenario_env\<lparr>get_cdip_data := (\<lambda>p. Some InvalidCDIPFile)\<rparr>"

text \<open>The same station on a machine with a single core.\<close>

definition single_core_env :: "(string, int) env" where
  "single_core_env = scenario_env\<lparr>cpu_count := 1\<rparr>"

section \<open>Properties\<close>

subsection \<open>The merge\<close>

lemma upto_glue: "a \<le> b \<Longrightarrow> b \<le> c \<Longrightarrow> [a..b - 1] @ [b..c - 1] = [a..c - (1::int)]"
proof -
  assume ab: "a \<le> b" and bc: "b \<le> c"
  show ?thesis
  proof (cases "b = c")
    case True
    then show ?thesis by simp
  next
    case False
    with bc have "b \<le> c - 1" by simp
    from upto_split1 [OF ab this] show ?thesis by simp
  qed
qed

lemma len_nonneg: "0 \<le> len col"
  by (cases col) simp_all

lemma ids_of_update: "ids_of (AList.update wave_id_local (Ids xs) c) = xs"
  by (simp add: ids_of_def update_conv')

lemma length_arange: "a \<le> b \<Longrightarrow> int (length (arange a b)) = b - a"
  by (simp add: arange_def)

lemma merge_chunks_contiguous:
  "merge_chunks cs cur = (ys, final, err :: 'e exn option) \<Longrightarrow>
     cur \<le> final \<and> concat (map ids_of ys) = [cur..final - 1]"
proof (induction cs arbitrary: cur ys final err)
  case Nil
  then show ?case by simp
next
  case (Cons c cs)
  show ?case
  proof (cases "c = []")
    case True
    with Cons show ?thesis by simp
  next
    case False
    show ?thesis
    proof (cases "map_of c wave_id_local")
      case None
      with False Cons.prems show ?thesis by simp
    next
      case (Some col)
      obtain zs fin e where rec: "merge_chunks cs (cur + len col) = (zs, fin, e :: 'e exn option)"
        by (metis prod_cases3)
      from Cons.IH [OF rec] have ih: "cur + len col \<le> fin" "concat (map ids_of zs) = [cur + len col..fin - 1]"
        by simp_all
      from Cons.prems False Some rec
      have ys: "ys = AList.update wave_id_local (Ids (arange cur (cur + len col))) c # zs"
        and fin: "final = fin"
        by (simp_all add: Let_def)
      have "cur \<le> cur + len col" using len_nonneg [of col] by simp
      from upto_glue [OF this ih(1)] ih len_nonneg [of col] show ?thesis
        unfolding ys fin by (simp add: ids_of_update arange_def)
    qed
  qed
qed

lemma merge_chunks_well_formed:
  "\<forall>c \<in> set cs. well_formed c \<Longrightarrow>
   \<exists>ys. merge_chunks cs cur
          = (ys, cur + sum_list (map size_of (filter (\<lambda>c. c \<noteq> []) cs)), None :: 'e exn option)
      \<and> list_all2 (\<lambda>y c. y = AList.update wave_id_local (Ids (ids_of y)) c
                         \<and> int (length (ids_of y)) = size_of c)
           ys (filter (\<lambda>c. c \<noteq> []) cs)"
proof (induction cs arbitrary: cur)
  case Nil
  then show ?case by simp
next
  case (Cons c cs)
  show ?case
  proof (cases "c = []")
    case True
    with Cons show ?thesis by simp
  next
    case False
    with Cons.prems obtain col where col: "map_of c wave_id_local = Some col"
      by (auto simp: well_formed_def)
    from Cons.prems have "\<forall>c \<in> set cs. well_formed c" by simp
    from Cons.IH [OF this, of "cur + len col"] obtain zs where
      rec: "merge_chunks cs (cur + len col)
            = (zs, cur + len col + sum_list (map size_of (filter (\<lambda>c. c \<noteq> []) cs)), None :: 'e exn option)"
      and rel: "list_all2 (\<lambda>y c. y = AList.update wave_id_local (Ids (ids_of y)) c
                         \<and> int (length (ids_of y)) = size_of c) zs (filter (\<lambda>c. c \<noteq> []) cs)"
      by blast
    have sz: "size_of c = len col" by (simp add: size_of_def col)
    have "cur \<le> cur + len col" using len_nonneg [of col] by simp
    from length_arange [OF this] have la: "int (length (arange cur (cur + len col))) = len col" by simp
    show ?thesis using False col rec rel sz la
      by (simp add: Let_def ids_of_update add.assoc)
  qed
qed

lemma merge_files_contiguous:
  fixes env :: "('e, 'v) env"
  shows "merge_files env rfs cur = (ys, final, err) \<Longrightarrow>
     cur \<le> final \<and> concat (map ids_of ys) = [cur..final - 1]"
proof (induction rfs arbitrary: cur ys final err)
  case Nil
  then show ?case by simp
next
  case (Cons r rest)
  show ?case
  proof (cases r)
    case None
    with Cons show ?thesis by simp
  next
    case (Some f)
    obtain as mid e where
      a: "merge_chunks (read_pickle_outfile_chunks env f) cur = (as, mid, e :: 'e exn option)"
      by (metis prod_cases3)
    note ca = merge_chunks_contiguous [OF a]
    show ?thesis
    proof (cases e)
      case (Some x)
      from Cons.prems \<open>r = Some f\<close> a Some have "ys = as \<and> final = mid"
        by simp
      with ca show ?thesis by simp
    next
      case None
      obtain zs fin e' where b: "merge_files env rest mid = (zs, fin, e')"
        by (metis prod_cases3)
      from Cons.IH [OF b] have ih: "mid \<le> fin" "concat (map ids_of zs) = [mid..fin - 1]"
        by simp_all
      from Cons.prems \<open>r = Some f\<close> a None b have "ys = as @ zs \<and> final = fin"
        by simp
      with ca ih upto_glue [of cur mid fin] show ?thesis by simp
    qed
  qed
qed

lemma stored_chunks_simps:
  "stored_chunks env [] = []"
  "stored_chunks env (None # rfs) = stored_chunks env rfs"
  "stored_chunks env (Some f # rfs)
     = filter (\<lambda>c. c \<noteq> []) (read_pickle_outfile_chunks env f) @ stored_chunks env rfs"
  by (simp_all add: stored_chunks_def)

lemma merge_files_well_formed:
  fixes env :: "('e, 'v) env"
  shows "\<forall>c \<in> set (stored_chunks env rfs). map_of c wave_id_local \<noteq> None \<Longrightarrow>
   \<exists>ys. merge_files env rfs cur = (ys, cur + sum_list (map size_of (stored_chunks env rfs)), None)
      \<and> list_all2 (\<lambda>y c. y = AList.update wave_id_local (Ids (ids_of y)) c
                         \<and> int (length (ids_of y)) = size_of c)
           ys (stored_chunks env rfs)"
proof (induction rfs arbitrary: cur)
  case Nil
  then show ?case by (simp add: stored_chunks_simps)
next
  case (Cons r rfs)
  show ?case
  proof (cases r)
    case None
    with Cons show ?thesis by (simp add: stored_chunks_simps)
  next
    case (Some f)
    let ?cs = "read_pickle_outfile_chunks env f"
    from Cons.prems Some have wf: "\<forall>c \<in> set ?cs. well_formed c"
      by (auto simp: stored_chunks_simps well_formed_def)
    from merge_chunks_well_formed [OF wf, of cur] obtain as where
      a: "merge_chunks ?cs cur = (as, cur + sum_list (map size_of (filter (\<lambda>c. c \<noteq> []) ?cs)), None :: 'e exn option)"
      and ra: "list_all2 (\<lambda>y c. y = AList.update wave_id_local (Ids (ids_of y)) c
                         \<and> int (length (ids_of y)) = size_of c) as (filter (\<lambda>c. c \<noteq> []) ?cs)"
      by blast
    from Cons.prems Some have "\<forall>c \<in> set (stored_chunks env rfs). map_of c wave_id_local \<noteq> None"
      by (simp add: stored_chunks_simps)
    from Cons.IH [OF this, of "cur + sum_list (map size_of (filter (\<lambda>c. c \<noteq> []) ?cs))"] obtain zs where
      b: "merge_files env rfs (cur + sum_list (map size_of (filter (\<lambda>c. c \<noteq> []) ?cs)))
          = (zs, cur + sum_list (map size_of (filter (\<lambda>c. c \<noteq> []) ?cs)) + sum_list (map size_of (stored_chunks env rfs)), None)"
      and rb: "list_all2 (\<lambda>y c. y = AList.update wave_id_local (Ids (ids_of y)) c
                         \<and> int (length (ids_of y)) = size_of c) zs (stored_chunks env rfs)"
      by blast
    show ?thesis using Some a b ra rb
      by (simp add: stored_chunks_simps list_all2_appendI add.assoc)
  qed
qed

text \<open>
  Claim C1. Whatever the result handles, the chunk counts and the chunk sizes (empty dicts,
  arrays of length zero and skipped units included), the rewritten identifier fields of the
  chunks the generator yields, read in order, are exactly \<open>0, ..., final - 1\<close>, where
  \<open>final\<close> is the last value of \<^verbatim>\<open>current_wave_id\<close>: unique, contiguous, from 0. When
  every non-empty stored chunk has the field \<^verbatim>\<open>'wave_id_local'\<close>, the generator ends
  without an exception, \<open>final\<close> is the number of stored records, and the chunks yielded are
  the stored non-empty chunks in canonical order, each with only its identifier field
  replaced, by as many identifiers as it had.
\<close>

theorem generate_results_global_ids:
  fixes env :: "('e, 'v) env"
  assumes "generate_results env rfs = (ys, final, err)"
  shows "concat (map ids_of ys) = [0..final - 1]
       \<and> ((\<forall>c \<in> set (stored_chunks env rfs). map_of c wave_id_local \<noteq> None) \<longrightarrow>
            err = None
          \<and> final = sum_list (map size_of (stored_chunks env rfs))
          \<and> list_all2 (\<lambda>y c. y = AList.update wave_id_local (Ids (ids_of y)) c
                             \<and> int (length (ids_of y)) = size_of c)
               ys (stored_chunks env rfs))"
proof
  from merge_files_contiguous [of env rfs 0 ys final err] assms
  show "concat (map ids_of ys) = [0..final - 1]"
    by (simp add: generate_results_def)
  show "(\<forall>c \<in> set (stored_chunks env rfs). map_of c wave_id_local \<noteq> None) \<longrightarrow>
            err = None
          \<and> final = sum_list (map size_of (stored_chunks env rfs))
          \<and> list_all2 (\<lambda>y c. y = AList.update wave_id_local (Ids (ids_of y)) c
                             \<and> int (length (ids_of y)) = size_of c)
               ys (stored_chunks env rfs)"
  proof
    assume "\<forall>c \<in> set (stored_chunks env rfs). map_of c wave_id_local \<noteq> None"
    from merge_files_well_formed [OF this, of 0] assms
    show "err = None
          \<and> final = sum_list (map size_of (stored_chunks env rfs))
          \<and> list_all2 (\<lambda>y c. y = AList.update wave_id_local (Ids (ids_of y)) c
                             \<and> int (length (ids_of y)) = size_of c)
               ys (stored_chunks env rfs)"
      by (auto simp: generate_results_def)
  qed
qed

text \<open>The three deployments: identifiers 0 to 5.\<close>

theorem generate_results_global_ids_witness:
  "generate_results scenario_env scenario_handles = (scenario_merged, 6, None)
   \<and> list_all (\<lambda>c. map_of c wave_id_local \<noteq> None) (stored_chunks scenario_env scenario_handles)
   \<and> sum_list (map size_of (stored_chunks scenario_env scenario_handles)) = 6
   \<and> concat (map ids_of scenario_merged) = [0, 1, 2, 3, 4, 5]"
proof -
  have h1: "generate_results scenario_env scenario_handles
            = (scenario_merged, 6, None :: string exn option)"
    by code_simp
  have h2: "\<forall>c \<in> set (stored_chunks scenario_env scenario_handles). map_of c wave_id_local \<noteq> None"
    by code_simp
  have "[0..6 - 1] = [0, 1, 2, 3, 4, 5 :: int]" by code_simp
  with generate_results_global_ids [OF h1] h1 h2 show ?thesis
    by (simp add: list_all_iff)
qed

lemma merge_files_drop_skipped:
  "i < length rfs \<Longrightarrow> rfs ! i = None \<Longrightarrow>
     merge_files env rfs cur = merge_files env (take i rfs @ drop (Suc i) rfs) cur"
proof (induction rfs arbitrary: i cur)
  case Nil
  then show ?case by simp
next
  case (Cons r rfs)
  show ?case
  proof (cases i)
    case 0
    with Cons.prems show ?thesis by simp
  next
    case (Suc j)
    with Cons.prems have j: "j < length rfs" "rfs ! j = None" by simp_all
    note ih = Cons.IH [OF j]
    show ?thesis
    proof (cases r)
      case None
      with Suc ih show ?thesis by simp
    next
      case (Some f)
      with Suc ih show ?thesis by (simp split: prod.splits option.splits)
    qed
  qed
qed

text \<open>
  Claim C4. When the entry of unit \<open>i\<close> in the result storage is \<^verbatim>\<open>None\<close> (the unit was
  skipped), the merge yields the same chunks with the same identifiers, and ends with the
  same counter, as it does on the storage from which unit \<open>i\<close> is removed: the skip shifts
  no identifier of another unit.
\<close>

theorem skipped_unit_shifts_nothing:
  assumes "i < length rfs" and "rfs ! i = None"
  shows "generate_results env rfs = generate_results env (take i rfs @ drop (Suc i) rfs)"
  using merge_files_drop_skipped [OF assms] by (simp add: generate_results_def)

theorem skipped_unit_shifts_nothing_witness:
  "1 < length scenario_handles \<and> scenario_handles ! 1 = None
   \<and> generate_results scenario_env scenario_handles
     = (generate_results scenario_env
          [Some ''out/100_d01.nc.waves.pkl'', Some ''out/100_d03.nc.waves.pkl'']
        :: int record_chunk list \<times> int \<times> string exn option)"
proof -
  have h1: "1 < length scenario_handles" by (simp add: scenario_handles_def)
  have h2: "scenario_handles ! 1 = None" by (simp add: scenario_handles_def)
  have "take 1 scenario_handles @ drop (Suc 1) scenario_handles
        = [Some ''out/100_d01.nc.waves.pkl'', Some ''out/100_d03.nc.waves.pkl'']"
    by (simp add: scenario_handles_def)
  with skipped_unit_shifts_nothing [OF h1 h2, of scenario_env] h1 h2 show ?thesis by simp
qed

lemma handle_result_none:
  assumes "i < length station_files" and "r = None \<or> st = None"
  shows "handle_result env station_files i (r, st) s
         = (None, s\<lparr>trace := trace s @ [Pbar_update, Log_skipped (station_files ! i)]\<rparr>)"
  using assms by (cases r; cases st; simp add: handle_result_def emit_def Let_def)

text \<open>
  Claim C10. When either component of the result pair is \<^verbatim>\<open>None\<close>, \<^verbatim>\<open>handle_result\<close> returns
  without an exception; the progress bar has advanced and the skip warning for the file is
  logged, and nothing else happened: the entry of the unit in \<^verbatim>\<open>result_files\<close> and the wave
  count are as before, and neither pickle file was read.
\<close>

theorem handle_result_skip:
  assumes "i < length station_files" and "r = None \<or> st = None"
  shows "handle_result env station_files i (r, st) s
         = (None, s\<lparr>trace := trace s @ [Pbar_update, Log_skipped (station_files ! i)]\<rparr>)"
  using assms by (rule handle_result_none)

theorem handle_result_skip_witness:
  "handle_result scenario_env [''a.nc'', ''b.nc''] 1 (Some ''b.waves.pkl'', None)
     \<lparr>result_files = [Some ''a.waves.pkl'', None], num_waves_total = 7, trace = []\<rparr>
   = (None :: string exn option,
      \<lparr>result_files = [Some ''a.waves.pkl'', None], num_waves_total = 7,
       trace = [Pbar_update, Log_skipped ''b.nc'']\<rparr>)"
  using handle_result_skip [of 1 "[''a.nc'', ''b.nc'']" "Some ''b.waves.pkl''" None scenario_env
      "\<lparr>result_files = [Some ''a.waves.pkl'', None], num_waves_total = 7, trace = []\<rparr>"]
  by simp

subsection \<open>The handler and the two dispatch loops\<close>

lemma handle_result_complete:
  assumes "i < length files" and "length (result_files s) = length files"
  shows "handle_result env files i (Some rf, Some sf) s =
     (case count_waves (read_pickle_outfile_chunks env rf) 0 of
        Inl e \<Rightarrow> (Some e, s\<lparr>trace := trace s @ [Pbar_update, Read_outfile rf]\<rparr>)
      | Inr n \<Rightarrow>
          (None,
           s\<lparr>result_files := (result_files s)[i := Some rf],
             num_waves_total := num_waves_total s + n,
             trace := trace s @
               [Pbar_update, Read_outfile rf, Read_statefile sf,
                Log_finished (files ! i)
                  (int (length (filter (\<lambda>res. res \<noteq> None) ((result_files s)[i := Some rf]))))
                  (int (length files)),
                Log_found_waves n, Log_qc_header]
               @ map (\<lambda>(key, val). Log_qc_flag key val)
                   (num_flags_fired (read_pickle_statefile env sf))\<rparr>))"
  using assms by (simp add: handle_result_def emit_def Let_def split: sum.splits)

lemma concat_map_flags:
  "concat (map g (map (\<lambda>(key, val). Log_qc_flag key val) kvs))
   = concat (map (\<lambda>(key, val). g (Log_qc_flag key val)) kvs)"
  by (induction kvs) auto

lemma handle_result_unit:
  fixes env :: "('e, 'v) env"
  assumes i: "i < length files" and len: "length (result_files s) = length files"
    and w: "get_cdip_wave_records env (files ! i) out qc = Inr result"
  shows "\<exists>s' evs. handle_result env files i result s = (unit_error env out qc (files ! i), s')
      \<and> length (result_files s') = length files
      \<and> trace s' = trace s @ evs \<and> list_all handler_event evs
      \<and> filter is_step evs = [Pbar_update]
      \<and> (unit_error env out qc (files ! i) = None \<longrightarrow>
           result_files s' = (case unit_slot env out qc (files ! i) of
                                None \<Rightarrow> result_files s
                              | Some rf \<Rightarrow> (result_files s)[i := Some rf])
         \<and> num_waves_total s' = num_waves_total s + unit_waves env out qc (files ! i)
         \<and> (\<forall>g :: 'v event \<Rightarrow> 'a list. quiet g \<longrightarrow>
               concat (map g evs) = unit_proj g env out qc (files ! i)))"
proof -
  obtain r st where result: "result = (r, st)" by (cases result)
  show ?thesis
  proof (cases "r = None \<or> st = None")
    case True
    from handle_result_none [OF i True, of env s] True w result show ?thesis
      by (cases r; cases st;
          simp add: unit_error_def unit_slot_def unit_waves_def unit_flags_def unit_proj_def
            quiet_def len)
  next
    case False
    then obtain rf sf where rs: "r = Some rf" "st = Some sf" by auto
    show ?thesis
    proof (cases "count_waves (read_pickle_outfile_chunks env rf) 0 :: 'e exn + int")
      case (Inl e)
      with handle_result_complete [OF i len, of env rf sf] w result rs show ?thesis
        by (simp add: unit_error_def len)
    next
      case (Inr n)
      with handle_result_complete [OF i len, of env rf sf] w result rs show ?thesis
        by (simp add: unit_error_def unit_slot_def unit_waves_def unit_flags_def unit_proj_def
            quiet_def len list_all_iff concat_map_flags filter_map comp_def split_def)
    qed
  qed
qed

lemma unit_error_raise:
  "get_cdip_wave_records env f out qc = Inl e \<Longrightarrow> unit_error env out qc f = Some e"
  by (simp add: unit_error_def)

lemma as_completed_run:
  fixes env :: "('e, 'v) env"
  assumes "set js \<subseteq> {..<length files}" and "length (result_files s) = length files"
  shows "\<exists>s' evs.
      as_completed env files out qc js s
        = (first_error (map (\<lambda>j. unit_error env out qc (files ! j)) js), s')
      \<and> length (result_files s') = length files
      \<and> trace s' = trace s @ evs \<and> list_all handler_event evs
      \<and> (first_error (map (\<lambda>j. unit_error env out qc (files ! j)) js) = None \<longrightarrow>
           (\<forall>k<length files. result_files s' ! k =
              (if k \<in> set js \<and> unit_slot env out qc (files ! k) \<noteq> None
               then unit_slot env out qc (files ! k) else result_files s ! k))
         \<and> num_waves_total s'
             = num_waves_total s + sum_list (map (\<lambda>j. unit_waves env out qc (files ! j)) js)
         \<and> (\<forall>g :: 'v event \<Rightarrow> 'a list. quiet g \<longrightarrow>
               concat (map g evs) = concat (map (\<lambda>j. unit_proj g env out qc (files ! j)) js)))"
  using assms
proof (induction js arbitrary: s)
  case Nil
  then show ?case by simp
next
  case (Cons j js)
  from Cons.prems have j: "j < length files" and js: "set js \<subseteq> {..<length files}" by simp_all
  let ?W = "get_cdip_wave_records env (files ! j) out qc"
  show ?case
  proof (cases ?W)
    case (Inl e)
    then show ?thesis using Cons.prems(2) by (simp add: unit_error_raise)
  next
    case (Inr result)
    from handle_result_unit [OF j Cons.prems(2) Inr, where ?'a = 'a] obtain s1 evs1 where
      h: "handle_result env files j result s = (unit_error env out qc (files ! j), s1)"
      and len1: "length (result_files s1) = length files"
      and tr1: "trace s1 = trace s @ evs1" and all1: "list_all handler_event evs1"
      and ok1: "unit_error env out qc (files ! j) = None \<longrightarrow>
           result_files s1 = (case unit_slot env out qc (files ! j) of
                                None \<Rightarrow> result_files s
                              | Some rf \<Rightarrow> (result_files s)[j := Some rf])
         \<and> num_waves_total s1 = num_waves_total s + unit_waves env out qc (files ! j)
         \<and> (\<forall>g :: 'v event \<Rightarrow> 'a list. quiet g \<longrightarrow>
               concat (map g evs1) = unit_proj g env out qc (files ! j))"
      by (elim exE conjE) (rule that)
    show ?thesis
    proof (cases "unit_error env out qc (files ! j)")
      case (Some e)
      with Inr h len1 tr1 all1 show ?thesis by simp
    next
      case None
      from Cons.IH [OF js len1] obtain s2 evs2 where
        r: "as_completed env files out qc js s1
              = (first_error (map (\<lambda>j. unit_error env out qc (files ! j)) js), s2)"
        and len2: "length (result_files s2) = length files"
        and tr2: "trace s2 = trace s1 @ evs2" and all2: "list_all handler_event evs2"
        and ok2: "first_error (map (\<lambda>j. unit_error env out qc (files ! j)) js) = None \<longrightarrow>
           (\<forall>k<length files. result_files s2 ! k =
              (if k \<in> set js \<and> unit_slot env out qc (files ! k) \<noteq> None
               then unit_slot env out qc (files ! k) else result_files s1 ! k))
         \<and> num_waves_total s2
             = num_waves_total s1 + sum_list (map (\<lambda>j. unit_waves env out qc (files ! j)) js)
         \<and> (\<forall>g :: 'v event \<Rightarrow> 'a list. quiet g \<longrightarrow>
               concat (map g evs2) = concat (map (\<lambda>j. unit_proj g env out qc (files ! j)) js))"
        by (elim exE conjE) (rule that)
      have run: "as_completed env files out qc (j # js) s
              = (first_error (map (\<lambda>j. unit_error env out qc (files ! j)) (j # js)), s2)"
        using Inr h None r by simp
      have tr: "trace s2 = trace s @ (evs1 @ evs2)" using tr1 tr2 by simp
      have al: "list_all handler_event (evs1 @ evs2)" using all1 all2 by simp
      have ok: "first_error (map (\<lambda>j. unit_error env out qc (files ! j)) (j # js)) = None \<longrightarrow>
           (\<forall>k<length files. result_files s2 ! k =
              (if k \<in> set (j # js) \<and> unit_slot env out qc (files ! k) \<noteq> None
               then unit_slot env out qc (files ! k) else result_files s ! k))
         \<and> num_waves_total s2
             = num_waves_total s + sum_list (map (\<lambda>j. unit_waves env out qc (files ! j)) (j # js))
         \<and> (\<forall>g :: 'v event \<Rightarrow> 'a list. quiet g \<longrightarrow>
               concat (map g (evs1 @ evs2))
               = concat (map (\<lambda>j. unit_proj g env out qc (files ! j)) (j # js)))"
      proof
        assume "first_error (map (\<lambda>j. unit_error env out qc (files ! j)) (j # js)) = None"
        with None have fe: "first_error (map (\<lambda>j. unit_error env out qc (files ! j)) js) = None"
          by simp
        note a = ok1 [rule_format, OF None] and b = ok2 [rule_format, OF fe]
        have slots: "\<forall>k<length files. result_files s2 ! k =
              (if k \<in> set (j # js) \<and> unit_slot env out qc (files ! k) \<noteq> None
               then unit_slot env out qc (files ! k) else result_files s ! k)"
        proof (intro allI impI)
          fix k assume k: "k < length files"
          from a have "result_files s1 ! k =
              (if k = j \<and> unit_slot env out qc (files ! k) \<noteq> None
               then unit_slot env out qc (files ! k) else result_files s ! k)"
            using k Cons.prems(2) by (auto split: option.splits)
          with b k show "result_files s2 ! k =
              (if k \<in> set (j # js) \<and> unit_slot env out qc (files ! k) \<noteq> None
               then unit_slot env out qc (files ! k) else result_files s ! k)"
            by auto
        qed
        from a b have waves: "num_waves_total s2
             = num_waves_total s + sum_list (map (\<lambda>j. unit_waves env out qc (files ! j)) (j # js))"
          by simp
        from a b have "\<forall>g :: 'v event \<Rightarrow> 'a list. quiet g \<longrightarrow>
               concat (map g (evs1 @ evs2))
               = concat (map (\<lambda>j. unit_proj g env out qc (files ! j)) (j # js))"
          by simp
        with slots waves show "(\<forall>k<length files. result_files s2 ! k =
              (if k \<in> set (j # js) \<and> unit_slot env out qc (files ! k) \<noteq> None
               then unit_slot env out qc (files ! k) else result_files s ! k))
         \<and> num_waves_total s2
             = num_waves_total s + sum_list (map (\<lambda>j. unit_waves env out qc (files ! j)) (j # js))
         \<and> (\<forall>g :: 'v event \<Rightarrow> 'a list. quiet g \<longrightarrow>
               concat (map g (evs1 @ evs2))
               = concat (map (\<lambda>j. unit_proj g env out qc (files ! j)) (j # js)))"
          by blast
      qed
      show ?thesis
        by (rule exI [of _ s2], rule exI [of _ "evs1 @ evs2"]) (intro conjI run len2 tr al ok)
    qed
  qed
qed

lemma sequential_run:
  fixes env :: "('e, 'v) env"
  assumes "\<forall>p \<in> set ps. fst p < length files \<and> files ! fst p = snd p"
    and "length (result_files s) = length files"
  shows "\<exists>s' evs.
      sequential env files out qc ps s
        = (first_error (map (\<lambda>p. unit_error env out qc (snd p)) ps), s')
      \<and> length (result_files s') = length files
      \<and> trace s' = trace s @ evs \<and> list_all (\<lambda>ev. handler_event ev \<or> is_step ev) evs
      \<and> prefix (filter is_step evs) (concat (map (\<lambda>p. [Called (snd p), Pbar_update]) ps))
      \<and> (first_error (map (\<lambda>p. unit_error env out qc (snd p)) ps) = None \<longrightarrow>
           (\<forall>k<length files. result_files s' ! k =
              (if k \<in> fst ` set ps \<and> unit_slot env out qc (files ! k) \<noteq> None
               then unit_slot env out qc (files ! k) else result_files s ! k))
         \<and> num_waves_total s'
             = num_waves_total s + sum_list (map (\<lambda>p. unit_waves env out qc (snd p)) ps)
         \<and> (\<forall>g :: 'v event \<Rightarrow> 'a list. quiet g \<longrightarrow>
               concat (map g evs)
               = concat (map (\<lambda>p. g (Called (snd p)) @ unit_proj g env out qc (snd p)) ps)))"
  using assms
proof (induction ps arbitrary: s)
  case Nil
  then show ?case by simp
next
  case (Cons p ps)
  obtain j f where p: "p = (j, f)" by (cases p)
  from Cons.prems p have j: "j < length files" and f: "files ! j = f"
    and ps: "\<forall>p \<in> set ps. fst p < length files \<and> files ! fst p = snd p" by simp_all
  let ?s0 = "emit [Called f] s"
  have len0: "length (result_files ?s0) = length files" and tr0: "trace ?s0 = trace s @ [Called f]"
    using Cons.prems(2) by (simp_all add: emit_def)
  show ?case
  proof (cases "get_cdip_wave_records env f out qc")
    case (Inl e)
    then show ?thesis using Cons.prems(2) p
      by (simp add: unit_error_raise emit_def)
  next
    case (Inr result)
    with f have w: "get_cdip_wave_records env (files ! j) out qc = Inr result" by simp
    from handle_result_unit [OF j len0 w, where ?'a = 'a] obtain s1 evs1 where
      h: "handle_result env files j result ?s0 = (unit_error env out qc (files ! j), s1)"
      and len1: "length (result_files s1) = length files"
      and tr1: "trace s1 = trace ?s0 @ evs1" and all1: "list_all handler_event evs1"
      and st1: "filter is_step evs1 = [Pbar_update]"
      and ok1: "unit_error env out qc (files ! j) = None \<longrightarrow>
           result_files s1 = (case unit_slot env out qc (files ! j) of
                                None \<Rightarrow> result_files ?s0
                              | Some rf \<Rightarrow> (result_files ?s0)[j := Some rf])
         \<and> num_waves_total s1 = num_waves_total ?s0 + unit_waves env out qc (files ! j)
         \<and> (\<forall>g :: 'v event \<Rightarrow> 'a list. quiet g \<longrightarrow>
               concat (map g evs1) = unit_proj g env out qc (files ! j))"
      by (elim exE conjE) (rule that)
    have all1': "list_all (\<lambda>ev. handler_event ev \<or> is_step ev) evs1"
      using all1 by (simp add: list_all_iff)
    show ?thesis
    proof (cases "unit_error env out qc f")
      case (Some e)
      have run: "sequential env files out qc (p # ps) s
              = (first_error (map (\<lambda>p. unit_error env out qc (snd p)) (p # ps)), s1)"
        using Inr h Some p f by (simp add: Let_def)
      have tr: "trace s1 = trace s @ (Called f # evs1)" using tr1 tr0 by simp
      have al: "list_all (\<lambda>ev. handler_event ev \<or> is_step ev) (Called f # evs1)"
        using all1' by simp
      have st: "prefix (filter is_step (Called f # evs1))
          (concat (map (\<lambda>p. [Called (snd p), Pbar_update]) (p # ps)))"
        using st1 p by simp
      have ne: "first_error (map (\<lambda>p. unit_error env out qc (snd p)) (p # ps)) \<noteq> None"
        using Some p by simp
      show ?thesis
        by (rule exI [of _ s1], rule exI [of _ "Called f # evs1"])
           (intro conjI run len1 tr al st, rule impI, erule notE [OF ne])
    next
      case None
      from Cons.IH [OF ps len1] obtain s2 evs2 where
        r: "sequential env files out qc ps s1
              = (first_error (map (\<lambda>p. unit_error env out qc (snd p)) ps), s2)"
        and len2: "length (result_files s2) = length files"
        and tr2: "trace s2 = trace s1 @ evs2"
        and all2: "list_all (\<lambda>ev. handler_event ev \<or> is_step ev) evs2"
        and st2: "prefix (filter is_step evs2) (concat (map (\<lambda>p. [Called (snd p), Pbar_update]) ps))"
        and ok2: "first_error (map (\<lambda>p. unit_error env out qc (snd p)) ps) = None \<longrightarrow>
           (\<forall>k<length files. result_files s2 ! k =
              (if k \<in> fst ` set ps \<and> unit_slot env out qc (files ! k) \<noteq> None
               then unit_slot env out qc (files ! k) else result_files s1 ! k))
         \<and> num_waves_total s2
             = num_waves_total s1 + sum_list (map (\<lambda>p. unit_waves env out qc (snd p)) ps)
         \<and> (\<forall>g :: 'v event \<Rightarrow> 'a list. quiet g \<longrightarrow>
               concat (map g evs2)
               = concat (map (\<lambda>p. g (Called (snd p)) @ unit_proj g env out qc (snd p)) ps))"
        by (elim exE conjE) (rule that)
      let ?evs = "Called f # evs1 @ evs2"
      have run: "sequential env files out qc (p # ps) s
              = (first_error (map (\<lambda>p. unit_error env out qc (snd p)) (p # ps)), s2)"
        using Inr h None r p f by (simp add: Let_def)
      have tr: "trace s2 = trace s @ ?evs" using tr0 tr1 tr2 by simp
      have al: "list_all (\<lambda>ev. handler_event ev \<or> is_step ev) ?evs" using all1' all2 by simp
      have st: "prefix (filter is_step ?evs)
          (concat (map (\<lambda>p. [Called (snd p), Pbar_update]) (p # ps)))"
        using st1 st2 p by simp
      have ok: "first_error (map (\<lambda>p. unit_error env out qc (snd p)) (p # ps)) = None \<longrightarrow>
           (\<forall>k<length files. result_files s2 ! k =
              (if k \<in> fst ` set (p # ps) \<and> unit_slot env out qc (files ! k) \<noteq> None
               then unit_slot env out qc (files ! k) else result_files s ! k))
         \<and> num_waves_total s2
             = num_waves_total s + sum_list (map (\<lambda>p. unit_waves env out qc (snd p)) (p # ps))
         \<and> (\<forall>g :: 'v event \<Rightarrow> 'a list. quiet g \<longrightarrow>
               concat (map g ?evs)
               = concat (map (\<lambda>p. g (Called (snd p)) @ unit_proj g env out qc (snd p)) (p # ps)))"
      proof
        assume "first_error (map (\<lambda>p. unit_error env out qc (snd p)) (p # ps)) = None"
        with None p have fe: "first_error (map (\<lambda>p. unit_error env out qc (snd p)) ps) = None"
          by simp
        from None f have None': "unit_error env out qc (files ! j) = None" by simp
        note a = ok1 [rule_format, OF None'] and b = ok2 [rule_format, OF fe]
        have slots: "\<forall>k<length files. result_files s2 ! k =
              (if k \<in> fst ` set (p # ps) \<and> unit_slot env out qc (files ! k) \<noteq> None
               then unit_slot env out qc (files ! k) else result_files s ! k)"
        proof (intro allI impI)
          fix k assume k: "k < length files"
          from a have "result_files s1 ! k =
              (if k = j \<and> unit_slot env out qc (files ! k) \<noteq> None
               then unit_slot env out qc (files ! k) else result_files s ! k)"
            using k Cons.prems(2) by (auto simp: emit_def split: option.splits)
          with b k p show "result_files s2 ! k =
              (if k \<in> fst ` set (p # ps) \<and> unit_slot env out qc (files ! k) \<noteq> None
               then unit_slot env out qc (files ! k) else result_files s ! k)"
            by auto
        qed
        from a b p f have waves: "num_waves_total s2
             = num_waves_total s + sum_list (map (\<lambda>p. unit_waves env out qc (snd p)) (p # ps))"
          by (simp add: emit_def)
        from a b p f have "\<forall>g :: 'v event \<Rightarrow> 'a list. quiet g \<longrightarrow>
               concat (map g ?evs)
               = concat (map (\<lambda>p. g (Called (snd p)) @ unit_proj g env out qc (snd p)) (p # ps))"
          by simp
        with slots waves show "(\<forall>k<length files. result_files s2 ! k =
              (if k \<in> fst ` set (p # ps) \<and> unit_slot env out qc (files ! k) \<noteq> None
               then unit_slot env out qc (files ! k) else result_files s ! k))
         \<and> num_waves_total s2
             = num_waves_total s + sum_list (map (\<lambda>p. unit_waves env out qc (snd p)) (p # ps))
         \<and> (\<forall>g :: 'v event \<Rightarrow> 'a list. quiet g \<longrightarrow>
               concat (map g ?evs)
               = concat (map (\<lambda>p. g (Called (snd p)) @ unit_proj g env out qc (snd p)) (p # ps)))"
          by blast
      qed
      show ?thesis
        by (rule exI [of _ s2], rule exI [of _ ?evs]) (intro conjI run len2 tr al st ok)
    qed
  qed
qed

subsection \<open>Dispatch from the initial state\<close>

lemma first_error_None_iff: "first_error es = None \<longleftrightarrow> (\<forall>e \<in> set es. e = None)"
  by (induction es rule: first_error.induct) auto

lemma set_completion_order: "set (completion_order c n) = {..<n}"
  by (auto simp: completion_order_def)

lemma mset_completion_order: "mset (completion_order c n) = mset [0..<n]"
  by (simp add: completion_order_def)

lemma sum_list_completion_order:
  "sum_list (map (\<lambda>j. w (files ! j)) (completion_order c (length files))) = sum_list (map w files :: int list)"
proof -
  have "mset (map (\<lambda>j. w (files ! j)) (completion_order c (length files)))
        = mset (map (\<lambda>j. w (files ! j)) [0..<length files])"
    by (simp add: mset_completion_order)
  then have "sum_mset (mset (map (\<lambda>j. w (files ! j)) (completion_order c (length files))))
        = sum_mset (mset (map (\<lambda>j. w (files ! j)) [0..<length files]))"
    by (rule arg_cong)
  then have "sum_list (map (\<lambda>j. w (files ! j)) (completion_order c (length files)))
        = sum_list (map (\<lambda>j. w (files ! j)) [0..<length files])"
    by (simp only: sum_mset_sum_list)
  also have "map (\<lambda>j. w (files ! j)) [0..<length files] = map w files"
    by (rule nth_equalityI) simp_all
  finally show ?thesis .
qed

lemma enumerate_facts:
  "\<forall>p \<in> set (enumerate 0 files). fst p < length files \<and> files ! fst p = snd p"
  "map snd (enumerate 0 files) = files"
  "fst ` set (enumerate 0 files) = {..<length files}"
proof -
  show "\<forall>p \<in> set (enumerate 0 files). fst p < length files \<and> files ! fst p = snd p"
    by (auto simp: in_set_enumerate_eq)
  show "map snd (enumerate 0 files) = files"
    by (simp add: enumerate_eq_zip)
  have "set (map fst (enumerate 0 files)) = {..<length files}"
    unfolding map_fst_enumerate by auto
  then show "fst ` set (enumerate 0 files) = {..<length files}"
    by (simp only: set_map)
qed

lemma slots_filled:
  assumes "length rs = length files"
    and "\<forall>k<length files. rs ! k = (if sl (files ! k) \<noteq> None then sl (files ! k) else None)"
  shows "rs = map sl files"
  using assms by (intro nth_equalityI) auto

lemma list_all_not_write:
  "list_all (\<lambda>ev. handler_event ev \<or> is_step ev) evs \<Longrightarrow> filter is_write evs = []"
  by (induction evs) (auto elim: handler_event.elims is_step.elims)

lemma list_all_not_pool:
  "list_all (\<lambda>ev. handler_event ev \<or> is_step ev) evs \<Longrightarrow> filter is_pool evs = []"
  by (induction evs) (auto elim: handler_event.elims is_step.elims)

lemma list_all_handler_weaken:
  "list_all handler_event evs \<Longrightarrow> list_all (\<lambda>ev. handler_event ev \<or> is_step ev) evs"
  by (simp add: list_all_iff)

lemma sequential_dispatch:
  fixes env :: "('e, 'v) env"
  shows "\<exists>s' evs.
      sequential env files out qc (enumerate 0 files) (initial_state sid (length files))
        = (first_error (map (unit_error env out qc) files), s')
      \<and> trace s' = Log_starting sid (int (length files)) # evs
      \<and> list_all (\<lambda>ev. handler_event ev \<or> is_step ev) evs
      \<and> prefix (filter is_step evs) (concat (map (\<lambda>f. [Called f, Pbar_update]) files))
      \<and> (first_error (map (unit_error env out qc) files) = None \<longrightarrow>
           result_files s' = map (unit_slot env out qc) files
         \<and> num_waves_total s' = sum_list (map (unit_waves env out qc) files)
         \<and> (\<forall>g :: 'v event \<Rightarrow> 'a list. quiet g \<longrightarrow>
               concat (map g evs)
               = concat (map (\<lambda>f. g (Called f) @ unit_proj g env out qc f) files)))"
proof -
  let ?s0 = "initial_state sid (length files) :: 'v station_state"
  let ?ps = "enumerate 0 files"
  have len0: "length (result_files ?s0) = length files" by (simp add: initial_state_def)
  have m1: "map (\<lambda>p. unit_error env out qc (snd p)) ?ps = map (unit_error env out qc) files"
    and m2: "map (\<lambda>p. unit_waves env out qc (snd p)) ?ps = map (unit_waves env out qc) files"
    and m3: "map (\<lambda>p. [Called (snd p), Pbar_update :: 'v event]) ?ps
             = map (\<lambda>f. [Called f, Pbar_update]) files"
    and m4: "\<And>g :: 'v event \<Rightarrow> 'a list.
             map (\<lambda>p. g (Called (snd p)) @ unit_proj g env out qc (snd p)) ?ps
             = map (\<lambda>f. g (Called f) @ unit_proj g env out qc f) files"
    using enumerate_facts(2) [of files] by (metis (mono_tags, lifting) map_map comp_apply map_eq_conv)+
  from sequential_run [OF enumerate_facts(1) len0, of env out qc, where ?'a = 'a]
  obtain s' evs where
    run: "sequential env files out qc ?ps ?s0
            = (first_error (map (\<lambda>p. unit_error env out qc (snd p)) ?ps), s')"
    and len: "length (result_files s') = length files"
    and tr: "trace s' = trace ?s0 @ evs"
    and al: "list_all (\<lambda>ev. handler_event ev \<or> is_step ev) evs"
    and st: "prefix (filter is_step evs) (concat (map (\<lambda>p. [Called (snd p), Pbar_update]) ?ps))"
    and ok: "first_error (map (\<lambda>p. unit_error env out qc (snd p)) ?ps) = None \<longrightarrow>
           (\<forall>k<length files. result_files s' ! k =
              (if k \<in> fst ` set ?ps \<and> unit_slot env out qc (files ! k) \<noteq> None
               then unit_slot env out qc (files ! k) else result_files ?s0 ! k))
         \<and> num_waves_total s'
             = num_waves_total ?s0 + sum_list (map (\<lambda>p. unit_waves env out qc (snd p)) ?ps)
         \<and> (\<forall>g :: 'v event \<Rightarrow> 'a list. quiet g \<longrightarrow>
               concat (map g evs)
               = concat (map (\<lambda>p. g (Called (snd p)) @ unit_proj g env out qc (snd p)) ?ps))"
    by (elim exE conjE) (rule that)
  have run': "sequential env files out qc ?ps ?s0 = (first_error (map (unit_error env out qc) files), s')"
    using run m1 by simp
  have tr': "trace s' = Log_starting sid (int (length files)) # evs"
    using tr by (simp add: initial_state_def)
  have st': "prefix (filter is_step evs) (concat (map (\<lambda>f. [Called f, Pbar_update]) files))"
    using st m3 by simp
  have ok': "first_error (map (unit_error env out qc) files) = None \<longrightarrow>
           result_files s' = map (unit_slot env out qc) files
         \<and> num_waves_total s' = sum_list (map (unit_waves env out qc) files)
         \<and> (\<forall>g :: 'v event \<Rightarrow> 'a list. quiet g \<longrightarrow>
               concat (map g evs)
               = concat (map (\<lambda>f. g (Called f) @ unit_proj g env out qc f) files))"
  proof
    assume "first_error (map (unit_error env out qc) files) = None"
    with m1 have "first_error (map (\<lambda>p. unit_error env out qc (snd p)) ?ps) = None" by simp
    note a = ok [rule_format, OF this]
    from a have "\<forall>k<length files. result_files s' ! k =
        (if unit_slot env out qc (files ! k) \<noteq> None then unit_slot env out qc (files ! k) else None)"
      by (simp add: enumerate_facts(3) initial_state_def)
    from slots_filled [OF len this] have 1: "result_files s' = map (unit_slot env out qc) files" .
    from a m2 have 2: "num_waves_total s' = sum_list (map (unit_waves env out qc) files)"
      by (simp add: initial_state_def)
    from a m4 have 3: "\<forall>g :: 'v event \<Rightarrow> 'a list. quiet g \<longrightarrow>
               concat (map g evs)
               = concat (map (\<lambda>f. g (Called f) @ unit_proj g env out qc f) files)"
      by simp
    from 1 2 3 show "result_files s' = map (unit_slot env out qc) files
         \<and> num_waves_total s' = sum_list (map (unit_waves env out qc) files)
         \<and> (\<forall>g :: 'v event \<Rightarrow> 'a list. quiet g \<longrightarrow>
               concat (map g evs)
               = concat (map (\<lambda>f. g (Called f) @ unit_proj g env out qc f) files))"
      by (intro conjI)
  qed
  show ?thesis
    by (rule exI [of _ s'], rule exI [of _ evs]) (intro conjI run' tr' al st' ok')
qed

lemma parallel_dispatch:
  fixes env :: "('e, 'v) env"
  shows "\<exists>s' evs.
      parallel env c files out qc nproc (initial_state sid (length files))
        = (first_error (map (\<lambda>j. unit_error env out qc (files ! j))
                          (completion_order c (length files))), s')
      \<and> trace s' = Log_starting sid (int (length files)) # Pool_created nproc
                     # map Submitted files @ evs
                     @ (if first_error (map (\<lambda>j. unit_error env out qc (files ! j))
                              (completion_order c (length files))) = None
                        then [] else [Terminated])
      \<and> list_all handler_event evs
      \<and> (first_error (map (\<lambda>j. unit_error env out qc (files ! j))
                          (completion_order c (length files))) = None \<longrightarrow>
           result_files s' = map (unit_slot env out qc) files
         \<and> num_waves_total s' = sum_list (map (unit_waves env out qc) files)
         \<and> (\<forall>g :: 'v event \<Rightarrow> 'a list. quiet g \<longrightarrow>
               concat (map g evs)
               = concat (map (\<lambda>j. unit_proj g env out qc (files ! j))
                           (completion_order c (length files)))))"
proof -
  let ?js = "completion_order c (length files)"
  let ?fe = "first_error (map (\<lambda>j. unit_error env out qc (files ! j)) ?js)"
  let ?s1 = "emit (Pool_created nproc # map Submitted files)
               (initial_state sid (length files) :: 'v station_state)"
  have len1: "length (result_files ?s1) = length files"
    by (simp add: initial_state_def emit_def)
  have sub: "set ?js \<subseteq> {..<length files}" by (simp add: set_completion_order)
  from as_completed_run [OF sub len1, of env out qc, where ?'a = 'a]
  obtain s2 evs where
    run: "as_completed env files out qc ?js ?s1 = (?fe, s2)"
    and len: "length (result_files s2) = length files"
    and tr: "trace s2 = trace ?s1 @ evs"
    and al: "list_all handler_event evs"
    and ok: "?fe = None \<longrightarrow>
           (\<forall>k<length files. result_files s2 ! k =
              (if k \<in> set ?js \<and> unit_slot env out qc (files ! k) \<noteq> None
               then unit_slot env out qc (files ! k) else result_files ?s1 ! k))
         \<and> num_waves_total s2
             = num_waves_total ?s1 + sum_list (map (\<lambda>j. unit_waves env out qc (files ! j)) ?js)
         \<and> (\<forall>g :: 'v event \<Rightarrow> 'a list. quiet g \<longrightarrow>
               concat (map g evs) = concat (map (\<lambda>j. unit_proj g env out qc (files ! j)) ?js))"
    by (elim exE conjE) (rule that)
  let ?s' = "if ?fe = None then s2 else emit [Terminated] s2"
  have run': "parallel env c files out qc nproc (initial_state sid (length files)) = (?fe, ?s')"
    using run by (cases ?fe) (simp_all add: parallel_def Let_def)
  have tr': "trace ?s' = Log_starting sid (int (length files)) # Pool_created nproc
                     # map Submitted files @ evs @ (if ?fe = None then [] else [Terminated])"
    using tr by (simp add: initial_state_def emit_def)
  have ok': "?fe = None \<longrightarrow>
           result_files ?s' = map (unit_slot env out qc) files
         \<and> num_waves_total ?s' = sum_list (map (unit_waves env out qc) files)
         \<and> (\<forall>g :: 'v event \<Rightarrow> 'a list. quiet g \<longrightarrow>
               concat (map g evs) = concat (map (\<lambda>j. unit_proj g env out qc (files ! j)) ?js))"
  proof
    assume fe: "?fe = None"
    note a = ok [rule_format, OF fe]
    from a have "\<forall>k<length files. result_files s2 ! k =
        (if unit_slot env out qc (files ! k) \<noteq> None then unit_slot env out qc (files ! k) else None)"
      by (simp add: set_completion_order initial_state_def emit_def)
    from slots_filled [OF len this] fe
    have 1: "result_files ?s' = map (unit_slot env out qc) files" by simp
    from a fe have 2: "num_waves_total ?s' = sum_list (map (unit_waves env out qc) files)"
      by (simp add: initial_state_def emit_def sum_list_completion_order)
    from a have 3: "\<forall>g :: 'v event \<Rightarrow> 'a list. quiet g \<longrightarrow>
               concat (map g evs) = concat (map (\<lambda>j. unit_proj g env out qc (files ! j)) ?js)"
      by simp
    from 1 2 3 show "result_files ?s' = map (unit_slot env out qc) files
         \<and> num_waves_total ?s' = sum_list (map (unit_waves env out qc) files)
         \<and> (\<forall>g :: 'v event \<Rightarrow> 'a list. quiet g \<longrightarrow>
               concat (map g evs) = concat (map (\<lambda>j. unit_proj g env out qc (files ! j)) ?js))"
      by (intro conjI)
  qed
  show ?thesis
    by (rule exI [of _ ?s'], rule exI [of _ evs]) (intro conjI run' tr' al ok')
qed

lemma first_error_completion_order:
  "first_error (map (\<lambda>j. unit_error env out qc (files ! j)) (completion_order c (length files))) = None
   \<longleftrightarrow> first_error (map (unit_error env out qc) files) = None"
proof -
  have "(\<forall>j<length files. unit_error env out qc (files ! j) = None)
        \<longleftrightarrow> (\<forall>f \<in> set files. unit_error env out qc f = None)"
    by (metis in_set_conv_nth)
  then show ?thesis
    unfolding first_error_None_iff set_map set_completion_order by auto
qed

lemma process_unfold:
  assumes "isdir env (normpath env folder)" and "discovered env folder \<noteq> []"
  shows "process_cdip_station env c folder out nproc0 =
    (let station_id = basename (normpath env folder);
         files = discovered env folder;
         nproc = min (requested env nproc0) (int (length files));
         d = dispatch env c files out (qc_path env folder out) nproc
               (initial_state station_id (length files));
         tr = trace (snd d) @ [Cursor_reset (nproc + 2)]
     in case fst d of
          Some e \<Rightarrow> (Some e, tr)
        | None \<Rightarrow>
            if \<not> list_ex truthy (result_files (snd d))
            then (None, tr @ [Log_done, Log_no_output])
            else (case generate_results env (result_files (snd d)) of
                    (chunks, final, err) \<Rightarrow>
                      (err, tr @ [Log_done, Log_writing (join out (''fowd_cdip_'' @ station_id @ ''.nc'')),
                                  Write_records chunks (join out (''fowd_cdip_'' @ station_id @ ''.nc''))
                                    (''CDIP_'' @ station_id)])))"
proof -
  obtain outcome s1 where d:
    "dispatch env c (discovered env folder) out (qc_path env folder out)
       (min (requested env nproc0) (int (length (discovered env folder))))
       (initial_state (basename (normpath env folder)) (length (discovered env folder)))
     = (outcome, s1)"
    by (metis surj_pair)
  obtain chunks final err where g: "generate_results env (result_files s1) = (chunks, final, err)"
    by (metis prod_cases3)
  show ?thesis
  proof (cases outcome)
    case None
    with assms d g show ?thesis
      by (simp add: process_cdip_station_def discovered_def qc_path_def requested_def [symmetric]
          Let_def emit_def)
  next
    case (Some e)
    with assms d show ?thesis
      by (simp add: process_cdip_station_def discovered_def qc_path_def requested_def [symmetric]
          Let_def emit_def)
  qed
qed

lemma dispatch_facts:
  fixes env :: "('e, 'v) env"
  shows "\<exists>outcome s'.
      dispatch env c files out qc nproc (initial_state sid (length files)) = (outcome, s')
      \<and> (outcome = None \<longleftrightarrow> first_error (map (unit_error env out qc) files) = None)
      \<and> filter is_write (trace s') = []
      \<and> (outcome = None \<longrightarrow>
           result_files s' = map (unit_slot env out qc) files
         \<and> num_waves_total s' = sum_list (map (unit_waves env out qc) files))"
proof (cases "1 < nproc")
  case True
  let ?fe = "first_error (map (\<lambda>j. unit_error env out qc (files ! j))
                          (completion_order c (length files)))"
  from parallel_dispatch [of env c files out qc nproc sid, where ?'a = unit]
  obtain s' evs where
    run: "parallel env c files out qc nproc (initial_state sid (length files)) = (?fe, s')"
    and tr: "trace s' = Log_starting sid (int (length files)) # Pool_created nproc
                     # map Submitted files @ evs @ (if ?fe = None then [] else [Terminated])"
    and al: "list_all handler_event evs"
    and ok: "?fe = None \<longrightarrow>
           result_files s' = map (unit_slot env out qc) files
         \<and> num_waves_total s' = sum_list (map (unit_waves env out qc) files)
         \<and> (\<forall>g :: 'v event \<Rightarrow> unit list. quiet g \<longrightarrow>
               concat (map g evs)
               = concat (map (\<lambda>j. unit_proj g env out qc (files ! j))
                           (completion_order c (length files))))"
    by (elim exE conjE) (rule that)
  have w: "filter is_write (trace s') = []"
    using tr list_all_not_write [OF list_all_handler_weaken [OF al]]
    by (simp add: filter_empty_conv image_iff)
  have d: "dispatch env c files out qc nproc (initial_state sid (length files)) = (?fe, s')"
    using True run by (simp add: dispatch_def)
  show ?thesis
    by (rule exI [of _ ?fe], rule exI [of _ s'])
       (use d w ok first_error_completion_order [of env out qc files c] in simp)
next
  case False
  let ?fe = "first_error (map (unit_error env out qc) files)"
  from sequential_dispatch [of env files out qc sid, where ?'a = unit]
  obtain s' evs where
    run: "sequential env files out qc (enumerate 0 files) (initial_state sid (length files))
            = (?fe, s')"
    and tr: "trace s' = Log_starting sid (int (length files)) # evs"
    and al: "list_all (\<lambda>ev. handler_event ev \<or> is_step ev) evs"
    and st: "prefix (filter is_step evs) (concat (map (\<lambda>f. [Called f, Pbar_update]) files))"
    and ok: "?fe = None \<longrightarrow>
           result_files s' = map (unit_slot env out qc) files
         \<and> num_waves_total s' = sum_list (map (unit_waves env out qc) files)
         \<and> (\<forall>g :: 'v event \<Rightarrow> unit list. quiet g \<longrightarrow>
               concat (map g evs)
               = concat (map (\<lambda>f. g (Called f) @ unit_proj g env out qc f) files))"
    by (elim exE conjE) (rule that)
  have w: "filter is_write (trace s') = []"
    using tr list_all_not_write [OF al] by simp
  have d: "dispatch env c files out qc nproc (initial_state sid (length files)) = (?fe, s')"
    using False run by (simp add: dispatch_def)
  show ?thesis
    by (rule exI [of _ ?fe], rule exI [of _ s']) (use d w ok in simp)
qed

lemma count_waves_merge:
  "count_waves cs n = (Inr m :: 'e exn + int) \<Longrightarrow>
     \<exists>ys. merge_chunks cs cur = (ys, cur + (m - n), None :: 'e exn option)"
proof (induction cs arbitrary: n cur)
  case Nil
  then show ?case by simp
next
  case (Cons c cs)
  show ?case
  proof (cases "c = []")
    case True
    with Cons show ?thesis by simp
  next
    case False
    show ?thesis
    proof (cases "map_of c wave_id_local")
      case None
      with False Cons.prems show ?thesis by simp
    next
      case (Some col)
      with False Cons.prems have "count_waves cs (n + len col) = (Inr m :: 'e exn + int)" by simp
      from Cons.IH [OF this, of "cur + len col"] obtain ys where
        "merge_chunks cs (cur + len col) = (ys, cur + len col + (m - (n + len col)), None :: 'e exn option)"
        by blast
      with False Some show ?thesis by (simp add: Let_def)
    qed
  qed
qed

lemma merge_files_units:
  fixes env :: "('e, 'v) env"
  assumes "\<forall>f \<in> set files. unit_error env out qc f = None"
  shows "\<exists>ys. merge_files env (map (unit_slot env out qc) files) cur
           = (ys, cur + sum_list (map (unit_waves env out qc) files), None)"
  using assms
proof (induction files arbitrary: cur)
  case Nil
  then show ?case by simp
next
  case (Cons f files)
  from Cons.prems have f: "unit_error env out qc f = None"
    and rest: "\<forall>f \<in> set files. unit_error env out qc f = None" by simp_all
  show ?case
  proof (cases "unit_slot env out qc f")
    case None
    then have "unit_waves env out qc f = 0"
      by (auto simp: unit_slot_def unit_waves_def split: sum.splits option.splits prod.splits)
    with None Cons.IH [OF rest, of cur] show ?thesis by simp
  next
    case (Some rf)
    with f obtain n where n: "count_waves (read_pickle_outfile_chunks env rf) 0 = (Inr n :: 'e exn + int)"
      and w: "unit_waves env out qc f = n"
      by (auto simp: unit_slot_def unit_waves_def unit_error_def
          split: sum.splits option.splits prod.splits)
    from count_waves_merge [OF n, of cur] obtain ys where
      a: "merge_chunks (read_pickle_outfile_chunks env rf) cur = (ys, cur + n, None :: 'e exn option)"
      by auto
    from Cons.IH [OF rest, of "cur + n"] obtain zs where
      b: "merge_files env (map (unit_slot env out qc) files) (cur + n)
           = (zs, cur + n + sum_list (map (unit_waves env out qc) files), None)"
      by blast
    from Some a b w show ?thesis by (simp add: add.assoc)
  qed
qed

lemma process_summary:
  fixes env :: "('e, 'v) env"
  assumes dir: "isdir env (normpath env folder)" and ne: "discovered env folder \<noteq> []"
  shows "filter is_write (snd (process_cdip_station env c folder out nproc0))
     = (if first_error (map (unit_error env out (qc_path env folder out)) (discovered env folder)) = None
           \<and> list_ex truthy (map (unit_slot env out (qc_path env folder out)) (discovered env folder))
        then [Write_records
                (fst (generate_results env
                        (map (unit_slot env out (qc_path env folder out)) (discovered env folder))))
                (join out (''fowd_cdip_'' @ basename (normpath env folder) @ ''.nc''))
                (''CDIP_'' @ basename (normpath env folder))]
        else [])
   \<and> (fst (process_cdip_station env c folder out nproc0) = None
        \<longleftrightarrow> first_error (map (unit_error env out (qc_path env folder out)) (discovered env folder)) = None)"
proof -
  let ?files = "discovered env folder" and ?qc = "qc_path env folder out"
  let ?n = "min (requested env nproc0) (int (length ?files))"
  let ?sid = "basename (normpath env folder)"
  from dispatch_facts [of env c ?files out ?qc ?n ?sid] obtain outcome s' where
    d: "dispatch env c ?files out ?qc ?n (initial_state ?sid (length ?files)) = (outcome, s')"
    and o: "outcome = None \<longleftrightarrow> first_error (map (unit_error env out ?qc) ?files) = None"
    and w: "filter is_write (trace s') = []"
    and ok: "outcome = None \<longrightarrow>
           result_files s' = map (unit_slot env out ?qc) ?files
         \<and> num_waves_total s' = sum_list (map (unit_waves env out ?qc) ?files)"
    by (elim exE conjE) (rule that)
  show ?thesis
  proof (cases outcome)
    case (Some e)
    with o have "first_error (map (unit_error env out ?qc) ?files) \<noteq> None" by simp
    with Some d w show ?thesis
      unfolding process_unfold [OF dir ne] by (simp add: Let_def)
  next
    case None
    with o have fe: "first_error (map (unit_error env out ?qc) ?files) = None" by simp
    then have all: "\<forall>f \<in> set ?files. unit_error env out ?qc f = None"
      by (simp add: first_error_None_iff)
    from ok None have rf: "result_files s' = map (unit_slot env out ?qc) ?files" by simp
    from merge_files_units [OF all, of 0] obtain ys where
      g: "generate_results env (map (unit_slot env out ?qc) ?files)
            = (ys, sum_list (map (unit_waves env out ?qc) ?files), None)"
      by (auto simp: generate_results_def)
    from None d w rf g fe show ?thesis
      unfolding process_unfold [OF dir ne] by (simp add: Let_def)
  qed
qed

lemma process_not_a_directory:
  "\<not> isdir env (normpath env folder) \<Longrightarrow>
     process_cdip_station env c folder out nproc0 = (Some AssertionError, [])"
  by (simp add: process_cdip_station_def)

lemma process_no_files:
  assumes "isdir env (normpath env folder)" and "discovered env folder = []"
  shows "process_cdip_station env c folder out nproc0 = (Some RuntimeError, [])"
  using assms by (simp add: process_cdip_station_def discovered_def Let_def)

lemma dispatch_storage:
  fixes env :: "('e, 'v) env"
  assumes "fst (dispatch env c1 files out qc p1 (initial_state sid (length files))) = None"
  shows "fst (dispatch env c2 files out qc p2 (initial_state sid (length files))) = None
     \<and> result_files (snd (dispatch env c1 files out qc p1 (initial_state sid (length files))))
       = result_files (snd (dispatch env c2 files out qc p2 (initial_state sid (length files))))
     \<and> num_waves_total (snd (dispatch env c1 files out qc p1 (initial_state sid (length files))))
       = num_waves_total (snd (dispatch env c2 files out qc p2 (initial_state sid (length files))))"
proof -
  from dispatch_facts [of env c1 files out qc p1 sid] obtain o1 s1 where
    d1: "dispatch env c1 files out qc p1 (initial_state sid (length files)) = (o1, s1)"
    and e1: "o1 = None \<longleftrightarrow> first_error (map (unit_error env out qc) files) = None"
    and ok1: "o1 = None \<longrightarrow>
           result_files s1 = map (unit_slot env out qc) files
         \<and> num_waves_total s1 = sum_list (map (unit_waves env out qc) files)"
    by (elim exE conjE) (rule that)
  from dispatch_facts [of env c2 files out qc p2 sid] obtain o2 s2 where
    d2: "dispatch env c2 files out qc p2 (initial_state sid (length files)) = (o2, s2)"
    and e2: "o2 = None \<longleftrightarrow> first_error (map (unit_error env out qc) files) = None"
    and ok2: "o2 = None \<longrightarrow>
           result_files s2 = map (unit_slot env out qc) files
         \<and> num_waves_total s2 = sum_list (map (unit_waves env out qc) files)"
    by (elim exE conjE) (rule that)
  from assms d1 have "o1 = None" by simp
  with e1 e2 ok1 ok2 d1 d2 show ?thesis by simp
qed

lemma dispatch_merge:
  fixes env :: "('e, 'v) env"
  assumes d: "dispatch env c files out qc nproc (initial_state sid (length files)) = (None, s)"
    and g: "generate_results env (result_files s) = (ys, final, err)"
  shows "err = None \<and> final = num_waves_total s
       \<and> concat (map ids_of ys) = [0..num_waves_total s - 1]"
proof -
  from dispatch_facts [of env c files out qc nproc sid] d
  have fe: "first_error (map (unit_error env out qc) files) = None"
    and rf: "result_files s = map (unit_slot env out qc) files"
    and nw: "num_waves_total s = sum_list (map (unit_waves env out qc) files)"
    by auto
  from fe have "\<forall>f \<in> set files. unit_error env out qc f = None"
    by (simp add: first_error_None_iff)
  from merge_files_units [OF this, of 0] obtain zs where
    "merge_files env (map (unit_slot env out qc) files) 0
       = (zs, sum_list (map (unit_waves env out qc) files), None)"
    by auto
  with g rf nw have e: "err = None" and f: "final = num_waves_total s"
    by (simp_all add: generate_results_def)
  from merge_files_contiguous [of env "result_files s" 0 ys final err] g f
  have "concat (map ids_of ys) = [0..num_waves_total s - 1]"
    by (simp add: generate_results_def)
  with e f show ?thesis by simp
qed

lemma scenario_units:
  "first_error (map (unit_error scenario_env ''out'' scenario_qc) scenario_files) = None"
  "map (unit_slot scenario_env ''out'' scenario_qc) scenario_files = scenario_handles"
  "sum_list (map (unit_waves scenario_env ''out'' scenario_qc) scenario_files) = 6"
  "generate_results scenario_env scenario_handles = (scenario_merged, 6, None :: string exn option)"
  by code_simp+

lemma skipped_unit:
  "get_cdip_wave_records env f out qc = Inr (None, None) \<Longrightarrow>
     unit_error env out qc f = None \<and> unit_slot env out qc f = None"
  by (simp add: unit_error_def unit_slot_def)

lemma first_error_find:
  "first_error (map h js) = (case find (\<lambda>j. h j \<noteq> None) js of None \<Rightarrow> None | Some j \<Rightarrow> h j)"
proof (induction js)
  case Nil
  then show ?case by simp
next
  case (Cons j js)
  then show ?case by (cases "h j") simp_all
qed

lemma tail_events_silent:
  assumes "list_all tail_event evs"
  shows "filter is_pool evs = []" and "filter is_step evs = []" and "concat (map flag_of evs) = []"
  using assms by (induction evs) (auto elim: tail_event.elims)

lemma process_trace:
  fixes env :: "('e, 'v) env"
  assumes dir: "isdir env (normpath env folder)" and ne: "discovered env folder \<noteq> []"
  shows "\<exists>suffix.
      snd (process_cdip_station env c folder out nproc0)
        = trace (snd (dispatch env c (discovered env folder) out (qc_path env folder out)
                        (min (requested env nproc0) (int (length (discovered env folder))))
                        (initial_state (basename (normpath env folder))
                           (length (discovered env folder)))))
          @ Cursor_reset (min (requested env nproc0) (int (length (discovered env folder))) + 2)
          # suffix
      \<and> list_all tail_event suffix"
proof -
  let ?d = "dispatch env c (discovered env folder) out (qc_path env folder out)
                        (min (requested env nproc0) (int (length (discovered env folder))))
                        (initial_state (basename (normpath env folder))
                           (length (discovered env folder)))"
  obtain chunks final err where
    g: "generate_results env (result_files (snd ?d)) = (chunks, final, err)"
    by (metis prod_cases3)
  show ?thesis
  proof (cases "fst ?d")
    case (Some e)
    then show ?thesis
      unfolding process_unfold [OF dir ne] by (simp add: Let_def)
  next
    case None
    then show ?thesis
      unfolding process_unfold [OF dir ne] using g by (simp add: Let_def)
  qed
qed

lemma flags_of_flag_lines:
  "concat (map (\<lambda>(key, val). [(key, val)]) kvs) = kvs"
  by (induction kvs) auto

lemma quiet_flag_of: "quiet flag_of"
  by (simp add: quiet_def)

lemma unit_proj_flag_of: "unit_proj flag_of env out qc f = unit_flags env out qc f"
  by (simp add: unit_proj_def flags_of_flag_lines)

lemma no_flags_submitted: "concat (map flag_of (map Submitted files)) = []"
  by (induction files) auto

lemma not_step_submitted: "filter is_pool (map Submitted files) = map Submitted files"
  by (induction files) auto


subsection \<open>The batch entry point\<close>

text \<open>
  Claim C9. When the station folder is a directory and no file matches the station's
  pattern, \<^verbatim>\<open>process_cdip_station\<close> raises \<^verbatim>\<open>RuntimeError\<close> and has had no effect at all: no
  unit was submitted or called, nothing was logged. (When the folder is not a directory,
  the assertion before the discovery fails first.)
\<close>

theorem no_station_files:
  assumes "isdir env (normpath env folder)" and "discovered env folder = []"
  shows "process_cdip_station env c folder out nproc0 = (Some RuntimeError, [])"
  using assms by (rule process_no_files)

theorem no_station_files_witness:
  "isdir (scenario_env\<lparr>glob := (\<lambda>p. [])\<rparr>) (normpath (scenario_env\<lparr>glob := (\<lambda>p. [])\<rparr>) ''data/100'')
   \<and> discovered (scenario_env\<lparr>glob := (\<lambda>p. [])\<rparr>) ''data/100'' = []
   \<and> process_cdip_station (scenario_env\<lparr>glob := (\<lambda>p. [])\<rparr>) (\<lambda>i. i) ''data/100'' ''out'' None
     = (Some RuntimeError, [])"
proof -
  let ?env = "scenario_env\<lparr>glob := (\<lambda>p. [])\<rparr>"
  have h1: "isdir ?env (normpath ?env ''data/100'')" by code_simp
  have h2: "discovered ?env ''data/100'' = []" by code_simp
  from no_station_files [OF h1 h2] h1 h2 show ?thesis by simp
qed

text \<open>
  Claim C8. When the station has input files and the computation of every one of them
  returns the pair \<^verbatim>\<open>(None, None)\<close>, \<^verbatim>\<open>process_cdip_station\<close> returns without an exception, on
  either path and for any order of completion; the last thing it does is to log the warning
  that there is no output to write, and \<^verbatim>\<open>write_records\<close> is not called.
\<close>

theorem all_units_skipped:
  fixes env :: "('e, 'v) env"
  assumes dir: "isdir env (normpath env folder)" and ne: "discovered env folder \<noteq> []"
    and skip: "\<forall>f \<in> set (discovered env folder).
                 get_cdip_wave_records env f out (qc_path env folder out) = Inr (None, None)"
  shows "\<exists>tr. process_cdip_station env c folder out nproc0 = (None, tr @ [Log_done, Log_no_output])
            \<and> filter is_write tr = []"
proof -
  let ?files = "discovered env folder" and ?qc = "qc_path env folder out"
  let ?n = "min (requested env nproc0) (int (length ?files))"
  let ?sid = "basename (normpath env folder)"
  from skip have e: "\<forall>f \<in> set ?files. unit_error env out ?qc f = None"
    and sl: "\<forall>f \<in> set ?files. unit_slot env out ?qc f = None"
    by (simp_all add: skipped_unit)
  from e have fe: "first_error (map (unit_error env out ?qc) ?files) = None"
    by (simp add: first_error_None_iff)
  from dispatch_facts [of env c ?files out ?qc ?n ?sid] fe obtain s' where
    d: "dispatch env c ?files out ?qc ?n (initial_state ?sid (length ?files)) = (None, s')"
    and w: "filter is_write (trace s') = []"
    and rf: "result_files s' = map (unit_slot env out ?qc) ?files"
    by auto
  from sl rf have "\<not> list_ex truthy (result_files s')"
    by (simp add: list_ex_iff truthy_def)
  with d have "process_cdip_station env c folder out nproc0
      = (None, (trace s' @ [Cursor_reset (?n + 2)]) @ [Log_done, Log_no_output])"
    unfolding process_unfold [OF dir ne] by (simp add: Let_def)
  moreover have "filter is_write (trace s' @ [Cursor_reset (?n + 2)]) = []"
    using w by simp
  ultimately show ?thesis by blast
qed

theorem all_units_skipped_witness:
  "isdir skipping_env (normpath skipping_env ''data/100'')
   \<and> discovered skipping_env ''data/100'' = scenario_files
   \<and> list_all (\<lambda>f. get_cdip_wave_records skipping_env f ''out''
                      (qc_path skipping_env ''data/100'' ''out'') = Inr (None, None))
        (discovered skipping_env ''data/100'')
   \<and> fst (process_cdip_station skipping_env (\<lambda>i. i) ''data/100'' ''out'' None) = None
   \<and> last (snd (process_cdip_station skipping_env (\<lambda>i. i) ''data/100'' ''out'' None)) = Log_no_output
   \<and> filter is_write (snd (process_cdip_station skipping_env (\<lambda>i. i) ''data/100'' ''out'' None)) = []"
proof -
  have h1: "isdir skipping_env (normpath skipping_env ''data/100'')" by code_simp
  have h2: "discovered skipping_env ''data/100'' = scenario_files" by code_simp
  then have h2': "discovered skipping_env ''data/100'' \<noteq> []" by (simp add: scenario_files_def)
  have h3: "\<forall>f \<in> set (discovered skipping_env ''data/100'').
      get_cdip_wave_records skipping_env f ''out'' (qc_path skipping_env ''data/100'' ''out'')
        = Inr (None, None)"
    by code_simp
  from all_units_skipped [OF h1 h2' h3, of "\<lambda>i. i" None] h1 h2 h3 show ?thesis
    by (auto simp: list_all_iff)
qed

text \<open>
  Claim C3. On the pool path, when the computation of some unit raises: the batch raises.
  The exception that comes out is, unchanged, the one of the first unit in the order of
  completion whose result cannot be handled (so the exception \<open>e0\<close> of the raising unit
  itself when no other unit fails); the handling of results stops there, every worker
  process is terminated, the cursor is reset, and \<^verbatim>\<open>write_records\<close> is not called.
\<close>

theorem fail_fast:
  fixes env :: "('e, 'v) env"
  assumes dir: "isdir env (normpath env folder)"
    and par: "1 < min (requested env nproc0) (int (length (discovered env folder)))"
    and f: "f \<in> set (discovered env folder)"
    and raises: "get_cdip_wave_records env f out (qc_path env folder out) = Inl e0"
  shows "\<exists>j e tr.
       find (\<lambda>j. unit_error env out (qc_path env folder out) (discovered env folder ! j) \<noteq> None)
         (completion_order c (length (discovered env folder))) = Some j
     \<and> unit_error env out (qc_path env folder out) (discovered env folder ! j) = Some e
     \<and> process_cdip_station env c folder out nproc0
        = (Some e, tr @ [Terminated,
             Cursor_reset (min (requested env nproc0) (int (length (discovered env folder))) + 2)])
     \<and> filter is_write tr = []
     \<and> ((\<forall>f' \<in> set (discovered env folder).
            f' \<noteq> f \<longrightarrow> unit_error env out (qc_path env folder out) f' = None) \<longrightarrow> e = e0)"
proof -
  let ?files = "discovered env folder" and ?qc = "qc_path env folder out"
  let ?n = "min (requested env nproc0) (int (length ?files))"
  let ?sid = "basename (normpath env folder)"
  let ?js = "completion_order c (length ?files)"
  let ?h = "\<lambda>j. unit_error env out ?qc (?files ! j)"
  let ?fe = "first_error (map ?h ?js)"
  from f have ne: "?files \<noteq> []" by auto
  from raises have uf: "unit_error env out ?qc f = Some e0" by (rule unit_error_raise)
  with f have "first_error (map (unit_error env out ?qc) ?files) \<noteq> None"
    by (auto simp: first_error_None_iff)
  then have fe: "?fe \<noteq> None" by (simp add: first_error_completion_order)
  then obtain j where j: "find (\<lambda>j. ?h j \<noteq> None) ?js = Some j" and fej: "?fe = ?h j"
    unfolding first_error_find by (auto split: option.splits)
  from fe fej obtain e where e: "?h j = Some e" by auto
  from j have jn: "j < length ?files"
    using set_completion_order [of c "length ?files"] by (auto simp: find_Some_iff)
  from parallel_dispatch [of env c ?files out ?qc ?n ?sid, where ?'a = unit] fe
  obtain s' evs where
    run: "parallel env c ?files out ?qc ?n (initial_state ?sid (length ?files)) = (?fe, s')"
    and tr: "trace s' = Log_starting ?sid (int (length ?files)) # Pool_created ?n
                     # map Submitted ?files @ evs @ [Terminated]"
    and al: "list_all handler_event evs"
    by auto
  let ?tr = "Log_starting ?sid (int (length ?files)) # Pool_created ?n # map Submitted ?files @ evs"
  from par run have d: "dispatch env c ?files out ?qc ?n (initial_state ?sid (length ?files))
      = (Some e, s')"
    using fej e by (simp add: dispatch_def)
  have p: "process_cdip_station env c folder out nproc0
      = (Some e, ?tr @ [Terminated, Cursor_reset (?n + 2)])"
    unfolding process_unfold [OF dir ne] using d tr by (simp add: Let_def)
  have w: "filter is_write ?tr = []"
    using list_all_not_write [OF list_all_handler_weaken [OF al]]
    by (simp add: filter_empty_conv image_iff)
  have only: "(\<forall>f' \<in> set ?files. f' \<noteq> f \<longrightarrow> unit_error env out ?qc f' = None) \<longrightarrow> e = e0"
  proof
    assume "\<forall>f' \<in> set ?files. f' \<noteq> f \<longrightarrow> unit_error env out ?qc f' = None"
    with e jn have "?files ! j = f" by (metis nth_mem option.distinct(1))
    with e uf show "e = e0" by simp
  qed
  show ?thesis
    by (rule exI [of _ j], rule exI [of _ e], rule exI [of _ ?tr]) (intro conjI j e p w only)
qed

theorem fail_fast_witness:
  "isdir failing_env (normpath failing_env ''data/100'')
   \<and> 1 < min (requested failing_env None) (int (length (discovered failing_env ''data/100'')))
   \<and> ''data/100/100_d02.nc'' \<in> set (discovered failing_env ''data/100'')
   \<and> get_cdip_wave_records failing_env ''data/100/100_d02.nc'' ''out''
        (qc_path failing_env ''data/100'' ''out'') = Inl (Raised ''boom'')
   \<and> fst (process_cdip_station failing_env (\<lambda>i. 3 - i) ''data/100'' ''out'' None)
       = Some (Raised ''boom'')
   \<and> Terminated \<in> set (snd (process_cdip_station failing_env (\<lambda>i. 3 - i) ''data/100'' ''out'' None))
   \<and> filter is_write (snd (process_cdip_station failing_env (\<lambda>i. 3 - i) ''data/100'' ''out'' None)) = []"
proof -
  have h1: "isdir failing_env (normpath failing_env ''data/100'')" by code_simp
  have h2: "1 < min (requested failing_env None) (int (length (discovered failing_env ''data/100'')))"
    by code_simp
  have h3: "''data/100/100_d02.nc'' \<in> set (discovered failing_env ''data/100'')" by code_simp
  have h4: "get_cdip_wave_records failing_env ''data/100/100_d02.nc'' ''out''
        (qc_path failing_env ''data/100'' ''out'') = Inl (Raised ''boom'')"
    by code_simp
  have h5: "\<forall>f' \<in> set (discovered failing_env ''data/100'').
      f' \<noteq> ''data/100/100_d02.nc''
        \<longrightarrow> unit_error failing_env ''out'' (qc_path failing_env ''data/100'' ''out'') f' = None"
    by code_simp
  from fail_fast [OF h1 h2 h3 h4, of "\<lambda>i. 3 - i"] h5
  obtain tr where "process_cdip_station failing_env (\<lambda>i. 3 - i) ''data/100'' ''out'' None
        = (Some (Raised ''boom''), tr @ [Terminated,
             Cursor_reset (min (requested failing_env None)
               (int (length (discovered failing_env ''data/100''))) + 2)])"
    and "filter is_write tr = []"
    by blast
  with h1 h2 h3 h4 show ?thesis by simp
qed

text \<open>
  Claim C5. The merged output does not depend on the dispatch path. For any two requested
  worker counts (so for 1, the sequential shortcut, and for any count that starts the
  pool) and any two orders of completion, the calls of \<^verbatim>\<open>write_records\<close>, with the chunks
  drawn, the output file and the station name, are the same, and one run raises exactly
  when the other does. The two paths fill the storage alike: when one dispatch ends without
  an exception so does the other, with the same \<^verbatim>\<open>result_files\<close> and the same
  \<^verbatim>\<open>num_waves_total\<close>.
\<close>

theorem pool_size_invariance:
  fixes env :: "('e, 'v) env"
  shows "filter is_write (snd (process_cdip_station env c1 folder out n1))
         = filter is_write (snd (process_cdip_station env c2 folder out n2))
     \<and> (fst (process_cdip_station env c1 folder out n1) = None
          \<longleftrightarrow> fst (process_cdip_station env c2 folder out n2) = None)
     \<and> (fst (dispatch env c1 files out qc p1 (initial_state sid (length files))) = None \<longrightarrow>
          fst (dispatch env c2 files out qc p2 (initial_state sid (length files))) = None
        \<and> result_files (snd (dispatch env c1 files out qc p1 (initial_state sid (length files))))
          = result_files (snd (dispatch env c2 files out qc p2 (initial_state sid (length files))))
        \<and> num_waves_total (snd (dispatch env c1 files out qc p1 (initial_state sid (length files))))
          = num_waves_total (snd (dispatch env c2 files out qc p2 (initial_state sid (length files)))))"
proof (intro conjI impI)
  show "filter is_write (snd (process_cdip_station env c1 folder out n1))
         = filter is_write (snd (process_cdip_station env c2 folder out n2))"
  proof (cases "isdir env (normpath env folder) \<and> discovered env folder \<noteq> []")
    case True
    then show ?thesis
      using process_summary [of env folder c1 out n1] process_summary [of env folder c2 out n2]
      by simp
  next
    case False
    show ?thesis
    proof (cases "isdir env (normpath env folder)")
      case True
      with False have "discovered env folder = []" by simp
      with True show ?thesis by (simp add: process_no_files)
    next
      case False
      then show ?thesis by (simp add: process_not_a_directory)
    qed
  qed
  show "fst (process_cdip_station env c1 folder out n1) = None
          \<longleftrightarrow> fst (process_cdip_station env c2 folder out n2) = None"
  proof (cases "isdir env (normpath env folder) \<and> discovered env folder \<noteq> []")
    case True
    then show ?thesis
      using process_summary [of env folder c1 out n1] process_summary [of env folder c2 out n2]
      by simp
  next
    case False
    show ?thesis
    proof (cases "isdir env (normpath env folder)")
      case True
      with False have "discovered env folder = []" by simp
      with True show ?thesis by (simp add: process_no_files)
    next
      case False
      then show ?thesis by (simp add: process_not_a_directory)
    qed
  qed
next
  assume a: "fst (dispatch env c1 files out qc p1 (initial_state sid (length files))) = None"
  from dispatch_storage [OF a, of c2 p2]
  show "fst (dispatch env c2 files out qc p2 (initial_state sid (length files))) = None"
    and "result_files (snd (dispatch env c1 files out qc p1 (initial_state sid (length files))))
          = result_files (snd (dispatch env c2 files out qc p2 (initial_state sid (length files))))"
    and "num_waves_total (snd (dispatch env c1 files out qc p1 (initial_state sid (length files))))
          = num_waves_total (snd (dispatch env c2 files out qc p2 (initial_state sid (length files))))"
    by simp_all
qed

theorem pool_size_invariance_witness:
  "fst (dispatch scenario_env (\<lambda>i. 0) scenario_files ''out'' scenario_qc 1
          (initial_state ''100'' (length scenario_files))) = None
   \<and> filter is_write (snd (process_cdip_station scenario_env (\<lambda>i. 3 - i) ''data/100'' ''out'' (Some 4)))
     = [Write_records scenario_merged ''out/fowd_cdip_100.nc'' ''CDIP_100'']
   \<and> fst (process_cdip_station scenario_env (\<lambda>i. 3 - i) ''data/100'' ''out'' (Some 4)) = None
   \<and> result_files (snd (dispatch scenario_env (\<lambda>i. 3 - i) scenario_files ''out'' scenario_qc 3
          (initial_state ''100'' (length scenario_files)))) = scenario_handles"
proof -
  have h: "fst (dispatch scenario_env (\<lambda>i. 0) scenario_files ''out'' scenario_qc 1
          (initial_state ''100'' (length scenario_files))) = None"
    by code_simp
  have w: "filter is_write (snd (process_cdip_station scenario_env (\<lambda>i. 0) ''data/100'' ''out'' (Some 1)))
     = [Write_records scenario_merged ''out/fowd_cdip_100.nc'' ''CDIP_100'']"
    by code_simp
  have f: "fst (process_cdip_station scenario_env (\<lambda>i. 0) ''data/100'' ''out'' (Some 1)) = None"
    by code_simp
  have r: "result_files (snd (dispatch scenario_env (\<lambda>i. 0) scenario_files ''out'' scenario_qc 1
          (initial_state ''100'' (length scenario_files))))
        = scenario_handles"
    by code_simp
  from pool_size_invariance [of scenario_env "\<lambda>i. 0" "''data/100''" "''out''" "Some 1"
      "\<lambda>i. 3 - i" "Some 4" scenario_files scenario_qc 1 "''100''" 3] h w f r
  show ?thesis by simp
qed

text \<open>
  Claim C7. When the dispatch ends without an exception, the merge over the storage it
  leaves ends without an exception too, and the final value of \<^verbatim>\<open>current_wave_id\<close> is
  \<^verbatim>\<open>num_waves_total\<close>, the count the handler accumulated: the identifiers assigned are
  \<open>0, ..., num_waves_total - 1\<close>. For the station of three deployments (chunks of 2, 0 and 3
  records, a skipped unit, one chunk of 1 record), on either path and for any order of
  completion, both numbers are 6.
\<close>

theorem waves_total_matches_ids:
  fixes env :: "('e, 'v) env"
  assumes "dispatch env c files out qc nproc (initial_state sid (length files)) = (None, s)"
    and "generate_results env (result_files s) = (ys, final, err)"
  shows "err = None \<and> final = num_waves_total s
       \<and> concat (map ids_of ys) = [0..num_waves_total s - 1]
       \<and> (\<exists>s'. dispatch scenario_env c' scenario_files ''out'' scenario_qc nproc'
                  (initial_state ''100'' (length scenario_files)) = (None, s')
              \<and> num_waves_total s' = 6
              \<and> generate_results scenario_env (result_files s')
                  = (scenario_merged, 6, None))"
proof -
  from dispatch_facts [of scenario_env c' scenario_files "''out''" scenario_qc nproc' "''100''"]
    scenario_units
  have "\<exists>s'. dispatch scenario_env c' scenario_files ''out'' scenario_qc nproc'
                  (initial_state ''100'' (length scenario_files)) = (None, s')
              \<and> num_waves_total s' = 6
              \<and> generate_results scenario_env (result_files s')
                  = (scenario_merged, 6, None)"
    by auto
  with dispatch_merge [OF assms] show ?thesis by simp
qed

theorem waves_total_matches_ids_witness:
  "dispatch scenario_env (\<lambda>i. 3 - i) scenario_files ''out'' scenario_qc 3
       (initial_state ''100'' (length scenario_files))
     = (None,
        \<lparr>result_files = scenario_handles, num_waves_total = 6,
         trace = trace (snd (dispatch scenario_env (\<lambda>i. 3 - i) scenario_files ''out'' scenario_qc 3
                   (initial_state ''100'' (length scenario_files))))\<rparr>)
   \<and> generate_results scenario_env scenario_handles = (scenario_merged, 6, None)
   \<and> concat (map ids_of scenario_merged) = [0, 1, 2, 3, 4, 5]"
proof -
  let ?s = "\<lparr>result_files = scenario_handles, num_waves_total = 6,
         trace = trace (snd (dispatch scenario_env (\<lambda>i. 3 - i) scenario_files ''out'' scenario_qc 3
                   (initial_state ''100'' (length scenario_files))))\<rparr>"
  have h1: "dispatch scenario_env (\<lambda>i. 3 - i) scenario_files ''out'' scenario_qc 3
       (initial_state ''100'' (length scenario_files)) = (None, ?s)"
    by code_simp
  have h2: "generate_results scenario_env (result_files ?s)
            = (scenario_merged, 6, None :: string exn option)"
    by code_simp
  have "[0..6 - 1] = [0, 1, 2, 3, 4, 5 :: int]" by code_simp
  with waves_total_matches_ids [OF h1 h2] h1 h2 show ?thesis by simp
qed

text \<open>
  Claim C2, as the code has it. The worker count is the requested count, the machine's core
  count when none is requested, capped by the number of input files only:
  \<open>min (requested, files)\<close>. It is the count the cursor reset uses. When it exceeds 1 the
  pool is created with that many workers and every file is submitted to it; when it is at
  most 1 there is no pool event at all, and the calls of the computation and the handling
  of the results alternate in canonical order, each file being called only after the result
  of the file before it was handled.
\<close>

theorem effective_worker_count:
  fixes env :: "('e, 'v) env"
  assumes dir: "isdir env (normpath env folder)" and ne: "discovered env folder \<noteq> []"
  shows "requested env None = cpu_count env \<and> requested env (Some p) = p
     \<and> Cursor_reset (min (requested env nproc0) (int (length (discovered env folder))) + 2)
         \<in> set (snd (process_cdip_station env c folder out nproc0))
     \<and> (1 < min (requested env nproc0) (int (length (discovered env folder))) \<longrightarrow>
          prefix (Pool_created (min (requested env nproc0) (int (length (discovered env folder))))
                    # map Submitted (discovered env folder))
            (filter is_pool (snd (process_cdip_station env c folder out nproc0))))
     \<and> (min (requested env nproc0) (int (length (discovered env folder))) \<le> 1 \<longrightarrow>
          filter is_pool (snd (process_cdip_station env c folder out nproc0)) = []
        \<and> prefix (filter is_step (snd (process_cdip_station env c folder out nproc0)))
            (concat (map (\<lambda>f. [Called f, Pbar_update]) (discovered env folder))))"
proof -
  let ?files = "discovered env folder" and ?qc = "qc_path env folder out"
  let ?n = "min (requested env nproc0) (int (length ?files))"
  let ?sid = "basename (normpath env folder)"
  let ?d = "dispatch env c ?files out ?qc ?n (initial_state ?sid (length ?files))"
  let ?tr = "snd (process_cdip_station env c folder out nproc0)"
  from process_trace [OF dir ne, of c out nproc0] obtain suffix where
    tr: "?tr = trace (snd ?d) @ Cursor_reset (?n + 2) # suffix"
    and tl: "list_all tail_event suffix"
    by blast
  note silent = tail_events_silent [OF tl]
  have 1: "requested env None = cpu_count env \<and> requested env (Some p) = p"
    by (simp add: requested_def)
  have 2: "Cursor_reset (?n + 2) \<in> set ?tr" using tr by simp
  have 3: "1 < ?n \<longrightarrow> prefix (Pool_created ?n # map Submitted ?files) (filter is_pool ?tr)"
  proof
    assume par: "1 < ?n"
    from parallel_dispatch [of env c ?files out ?qc ?n ?sid, where ?'a = unit]
    obtain s' evs rest where
      "parallel env c ?files out ?qc ?n (initial_state ?sid (length ?files))
         = (first_error (map (\<lambda>j. unit_error env out ?qc (?files ! j))
                          (completion_order c (length ?files))), s')"
      and "trace s' = Log_starting ?sid (int (length ?files)) # Pool_created ?n
                     # map Submitted ?files @ evs @ rest"
      by blast
    with par have "trace (snd ?d) = Log_starting ?sid (int (length ?files)) # Pool_created ?n
                     # map Submitted ?files @ evs @ rest"
      by (simp add: dispatch_def)
    with tr show "prefix (Pool_created ?n # map Submitted ?files) (filter is_pool ?tr)"
      by (simp add: not_step_submitted)
  qed
  have 4: "?n \<le> 1 \<longrightarrow> filter is_pool ?tr = []
        \<and> prefix (filter is_step ?tr) (concat (map (\<lambda>f. [Called f, Pbar_update]) ?files))"
  proof
    assume seq: "?n \<le> 1"
    from sequential_dispatch [of env ?files out ?qc ?sid, where ?'a = unit]
    obtain s' evs where
      r: "sequential env ?files out ?qc (enumerate 0 ?files) (initial_state ?sid (length ?files))
         = (first_error (map (unit_error env out ?qc) ?files), s')"
      and t: "trace s' = Log_starting ?sid (int (length ?files)) # evs"
      and al: "list_all (\<lambda>ev. handler_event ev \<or> is_step ev) evs"
      and st: "prefix (filter is_step evs) (concat (map (\<lambda>f. [Called f, Pbar_update]) ?files))"
      by blast
    note r t
    moreover from seq have "\<not> 1 < ?n" by (simp only: not_less)
    then have "?d = sequential env ?files out ?qc (enumerate 0 ?files)
                      (initial_state ?sid (length ?files))"
      unfolding dispatch_def by (simp only: if_False)
    ultimately have "trace (snd ?d) = Log_starting ?sid (int (length ?files)) # evs"
      by simp
    with tr st silent list_all_not_pool [OF al]
    show "filter is_pool ?tr = []
        \<and> prefix (filter is_step ?tr) (concat (map (\<lambda>f. [Called f, Pbar_update]) ?files))"
      by simp
  qed
  show ?thesis
    by (rule conjI [OF conjunct1 [OF 1] conjI [OF conjunct2 [OF 1] conjI [OF 2 conjI [OF 3 4]]]])
qed

theorem effective_worker_count_witness:
  "isdir single_core_env (normpath single_core_env ''data/100'')
   \<and> discovered single_core_env ''data/100'' = scenario_files
   \<and> min (requested single_core_env None) (int (length (discovered single_core_env ''data/100''))) = 1
   \<and> Cursor_reset 3 \<in> set (snd (process_cdip_station single_core_env (\<lambda>i. i) ''data/100'' ''out'' None))
   \<and> filter is_pool (snd (process_cdip_station single_core_env (\<lambda>i. i) ''data/100'' ''out'' None)) = []
   \<and> prefix (filter is_step (snd (process_cdip_station single_core_env (\<lambda>i. i) ''data/100'' ''out'' None)))
        (concat (map (\<lambda>f. [Called f, Pbar_update]) scenario_files))"
proof -
  have h1: "isdir single_core_env (normpath single_core_env ''data/100'')" by code_simp
  have h2: "discovered single_core_env ''data/100'' = scenario_files" by code_simp
  then have h2': "discovered single_core_env ''data/100'' \<noteq> []" by (simp add: scenario_files_def)
  have h3: "min (requested single_core_env None)
              (int (length (discovered single_core_env ''data/100''))) = 1"
    by code_simp
  note t = effective_worker_count [OF h1 h2', where c = "\<lambda>i. i" and out = "''out''"
      and ?nproc0.0 = None and p = 1]
  have h3': "min (requested single_core_env None) (int (length scenario_files)) = 1"
    by code_simp
  note a3 = t [THEN conjunct2, THEN conjunct2, THEN conjunct1, unfolded h2 h3']
  note a5 = t [THEN conjunct2, THEN conjunct2, THEN conjunct2, THEN conjunct2, unfolded h2 h3']
  from a3 have c3: "Cursor_reset 3
      \<in> set (snd (process_cdip_station single_core_env (\<lambda>i. i) ''data/100'' ''out'' None))"
    by simp
  from a5 have c5: "filter is_pool (snd (process_cdip_station single_core_env (\<lambda>i. i) ''data/100'' ''out'' None)) = []
   \<and> prefix (filter is_step (snd (process_cdip_station single_core_env (\<lambda>i. i) ''data/100'' ''out'' None)))
        (concat (map (\<lambda>f. [Called f, Pbar_update]) scenario_files))"
    by simp
  show ?thesis by (intro conjI h1 h2 h3 c3 conjunct1 [OF c5] conjunct2 [OF c5])
qed

text \<open>
  The claim as stated fails: with one core, two workers requested and three files,
  \<open>min (2, 3, cores)\<close> is 1, yet the pool is created with 2 workers.
\<close>

theorem worker_count_not_capped_by_cores:
  "min 2 (min (int (length (discovered single_core_env ''data/100''))) (cpu_count single_core_env)) = 1
   \<and> Pool_created 2
       \<in> set (snd (process_cdip_station single_core_env (\<lambda>i. i) ''data/100'' ''out'' (Some 2)))
   \<and> Cursor_reset 4
       \<in> set (snd (process_cdip_station single_core_env (\<lambda>i. i) ''data/100'' ''out'' (Some 2)))"
  by code_simp

text \<open>
  Claim C6, as the code has it. \<^verbatim>\<open>handle_result\<close> reads the state summary of every unit
  that is not skipped and logs the flag counts of that unit; it keeps no mapping across
  units. In a run in which no unit fails, the flag counts logged are exactly the counts of
  the single units, unit after unit in the order in which the results are handled:
  canonical order on the sequential path, order of completion on the pool path.
\<close>

theorem flags_logged_per_unit:
  fixes env :: "('e, 'v) env"
  assumes dir: "isdir env (normpath env folder)" and ne: "discovered env folder \<noteq> []"
    and ok: "\<forall>f \<in> set (discovered env folder).
               unit_error env out (qc_path env folder out) f = None"
  shows "logged_flags (snd (process_cdip_station env c folder out nproc0))
     = concat (map (unit_flags env out (qc_path env folder out))
         (if 1 < min (requested env nproc0) (int (length (discovered env folder)))
          then map (\<lambda>j. discovered env folder ! j)
                 (completion_order c (length (discovered env folder)))
          else discovered env folder))"
proof -
  let ?files = "discovered env folder" and ?qc = "qc_path env folder out"
  let ?n = "min (requested env nproc0) (int (length ?files))"
  let ?sid = "basename (normpath env folder)"
  let ?d = "dispatch env c ?files out ?qc ?n (initial_state ?sid (length ?files))"
  let ?tr = "snd (process_cdip_station env c folder out nproc0)"
  from process_trace [OF dir ne, of c out nproc0] obtain suffix where
    tr: "?tr = trace (snd ?d) @ Cursor_reset (?n + 2) # suffix"
    and tl: "list_all tail_event suffix"
    by blast
  from tail_events_silent(3) [OF tl] have sf: "logged_flags suffix = []"
    by (simp add: logged_flags_def)
  from tr sf have lf: "logged_flags ?tr = logged_flags (trace (snd ?d))"
    by (simp add: logged_flags_def)
  from ok have fe: "first_error (map (unit_error env out ?qc) ?files) = None"
    by (simp add: first_error_None_iff)
  show ?thesis
  proof (cases "1 < ?n")
    case True
    let ?js = "completion_order c (length ?files)"
    from fe have fe': "first_error (map (\<lambda>j. unit_error env out ?qc (?files ! j)) ?js) = None"
      by (simp add: first_error_completion_order)
    from parallel_dispatch [of env c ?files out ?qc ?n ?sid, where ?'a = "string \<times> int"] fe'
    obtain s' evs where
      run: "parallel env c ?files out ?qc ?n (initial_state ?sid (length ?files)) = (None, s')"
      and t: "trace s' = Log_starting ?sid (int (length ?files)) # Pool_created ?n
                     # map Submitted ?files @ evs @ []"
      and pr: "\<forall>g :: 'v event \<Rightarrow> (string \<times> int) list. quiet g \<longrightarrow>
               concat (map g evs) = concat (map (\<lambda>j. unit_proj g env out ?qc (?files ! j)) ?js)"
      by auto
    from pr [rule_format, OF quiet_flag_of]
    have "logged_flags evs = concat (map (\<lambda>j. unit_flags env out ?qc (?files ! j)) ?js)"
      by (simp add: logged_flags_def unit_proj_flag_of)
    moreover from True run t have "logged_flags (trace (snd ?d)) = logged_flags evs"
      by (simp add: dispatch_def logged_flags_def no_flags_submitted)
    ultimately have "logged_flags ?tr = concat (map (\<lambda>j. unit_flags env out ?qc (?files ! j)) ?js)"
      using lf by simp
    also have "\<dots> = concat (map (unit_flags env out ?qc) (map (\<lambda>j. ?files ! j) ?js))"
      by (simp add: comp_def)
    finally show ?thesis using True by (simp only: if_True)
  next
    case False
    from sequential_dispatch [of env ?files out ?qc ?sid, where ?'a = "string \<times> int"] fe
    obtain s' evs where
      run: "sequential env ?files out ?qc (enumerate 0 ?files) (initial_state ?sid (length ?files))
              = (None, s')"
      and t: "trace s' = Log_starting ?sid (int (length ?files)) # evs"
      and pr: "\<forall>g :: 'v event \<Rightarrow> (string \<times> int) list. quiet g \<longrightarrow>
               concat (map g evs)
               = concat (map (\<lambda>f. g (Called f) @ unit_proj g env out ?qc f) ?files)"
      by auto
    from pr [rule_format, OF quiet_flag_of]
    have "logged_flags evs = concat (map (unit_flags env out ?qc) ?files)"
      by (simp add: logged_flags_def unit_proj_flag_of)
    moreover from False have "?d = sequential env ?files out ?qc (enumerate 0 ?files)
                      (initial_state ?sid (length ?files))"
      unfolding dispatch_def by (simp only: if_False)
    with run t have "logged_flags (trace (snd ?d)) = logged_flags evs"
      by (simp add: logged_flags_def)
    ultimately have "logged_flags ?tr = concat (map (unit_flags env out ?qc) ?files)"
      using lf by simp
    then show ?thesis using False by (simp only: if_False)
  qed
qed

theorem flags_logged_per_unit_witness:
  "isdir scenario_env (normpath scenario_env ''data/100'')
   \<and> discovered scenario_env ''data/100'' = scenario_files
   \<and> list_all (\<lambda>f. unit_error scenario_env ''out'' (qc_path scenario_env ''data/100'' ''out'') f = None)
        (discovered scenario_env ''data/100'')
   \<and> logged_flags (snd (process_cdip_station scenario_env (\<lambda>i. 3 - i) ''data/100'' ''out'' None))
     = [(''a'', 1), (''a'', 1), (''b'', 2)]"
proof -
  have h1: "isdir scenario_env (normpath scenario_env ''data/100'')" by code_simp
  have h2: "discovered scenario_env ''data/100'' = scenario_files" by code_simp
  then have h2': "discovered scenario_env ''data/100'' \<noteq> []" by (simp add: scenario_files_def)
  have h3: "\<forall>f \<in> set (discovered scenario_env ''data/100'').
      unit_error scenario_env ''out'' (qc_path scenario_env ''data/100'' ''out'') f = None"
    by code_simp
  have v: "concat (map (unit_flags scenario_env ''out'' (qc_path scenario_env ''data/100'' ''out''))
         (if 1 < min (requested scenario_env None) (int (length (discovered scenario_env ''data/100'')))
          then map (\<lambda>j. discovered scenario_env ''data/100'' ! j)
                 (completion_order (\<lambda>i. 3 - i) (length (discovered scenario_env ''data/100'')))
          else discovered scenario_env ''data/100''))
       = [(''a'', 1), (''a'', 1), (''b'', 2)]"
    by code_simp
  from flags_logged_per_unit [OF h1 h2' h3, of "\<lambda>i. 3 - i" None, unfolded v] h1 h2 h3
  show ?thesis by (simp add: list_all_iff)
qed

text \<open>
  The claim as stated fails: in the station of three deployments flag \<open>a\<close> fires once in
  the first and once in the third unit, the sum over the units is 2, and the run reports
  1 and 1, never 2.
\<close>

theorem no_cumulative_flag_count:
  "flag_total scenario_env ''out'' scenario_qc scenario_files ''a'' = 2
   \<and> logged_flags (snd (process_cdip_station scenario_env (\<lambda>i. i) ''data/100'' ''out'' (Some 1)))
     = [(''a'', 1), (''b'', 2), (''a'', 1)]
   \<and> (''a'', 2) \<notin> set (logged_flags
          (snd (process_cdip_station scenario_env (\<lambda>i. i) ''data/100'' ''out'' (Some 1))))"
  by code_simp

end
